theory Spec2Isabelle
  imports Main "HOL-Library.Sublist"
begin

section \<open>The model\<close>

subsection \<open>Strings\<close>

text \<open>
  Identifiers (message ids, task ids, chat ids, tool-call ids, emoji names) are ASCII and
  are modelled as \<open>string\<close>.  Message text is a JavaScript string, whose \<open>length\<close>,
  \<open>slice\<close> and \<open>lastIndexOf\<close> count UTF-16 code units; it is modelled as the list of its
  code units, so that the non-ASCII characters of the literals keep their length.
\<close>

type_synonym utf16 = "nat list"

definition ascii :: "string \<Rightarrow> utf16" where
  "ascii s = map of_char s"

definition NEWLINE :: nat where
  "NEWLINE = 10"

text \<open>JavaScript truthiness of an optional string: defined and not empty.\<close>

definition truthy :: "string option \<Rightarrow> bool" where
  "truthy s = (case s of None \<Rightarrow> False | Some v \<Rightarrow> v \<noteq> [])"

subsection \<open>StatusReactor: replacing one status reaction by another\<close>

text \<open>
  The provider calls are effects.  A run of \<open>replaceStatusReaction\<close> is modelled by the
  outcome the provider gives to each call (the arguments \<open>addRes\<close>, \<open>Inl\<close> for a rejected
  add, and \<open>removeOk\<close>); it returns, next to its result, the provider calls it made in
  order and the number of lines it logged.
\<close>

record StatusReactionState =
  emojiType :: string
  reactionId :: string

datatype provider_call =
    AddReaction string string
  | RemoveReaction string string

text \<open>
  \<open>replaceStatusReaction\<close>: add first; remove the previous reaction only when
  \<open>prev?.reactionId\<close> is truthy and differs from the id just returned; a failing remove
  is logged and swallowed; a failing add propagates.
\<close>

definition replaceStatusReaction ::
  "(string + string) \<Rightarrow> bool \<Rightarrow> string \<Rightarrow> string \<Rightarrow> StatusReactionState option
     \<Rightarrow> (string + StatusReactionState) \<times> provider_call list \<times> nat" where
  "replaceStatusReaction addRes removeOk messageId nextEmojiType prev =
     (case addRes of
        Inl err \<Rightarrow> (Inl err, [AddReaction messageId nextEmojiType], 0)
      | Inr rid \<Rightarrow>
          (let res = Inr \<lparr>emojiType = nextEmojiType, reactionId = rid\<rparr>;
               added = [AddReaction messageId nextEmojiType]
           in case prev of
                None \<Rightarrow> (res, added, 0)
              | Some p \<Rightarrow>
                  if reactionId p \<noteq> [] \<and> reactionId p \<noteq> rid
                  then (res, added @ [RemoveReaction messageId (reactionId p)],
                        if removeOk then 0 else 1)
                  else (res, added, 0)))"

text \<open>
  An earlier snapshot of the same file removes the previous reaction whenever
  \<open>prev?.reactionId\<close> is truthy, without comparing it with the id just returned.
\<close>

definition replaceStatusReaction_earlier ::
  "(string + string) \<Rightarrow> bool \<Rightarrow> string \<Rightarrow> string \<Rightarrow> StatusReactionState option
     \<Rightarrow> (string + StatusReactionState) \<times> provider_call list \<times> nat" where
  "replaceStatusReaction_earlier addRes removeOk messageId nextEmojiType prev =
     (case addRes of
        Inl err \<Rightarrow> (Inl err, [AddReaction messageId nextEmojiType], 0)
      | Inr rid \<Rightarrow>
          (let res = Inr \<lparr>emojiType = nextEmojiType, reactionId = rid\<rparr>;
               added = [AddReaction messageId nextEmojiType]
           in case prev of
                None \<Rightarrow> (res, added, 0)
              | Some p \<Rightarrow>
                  if reactionId p \<noteq> []
                  then (res, added @ [RemoveReaction messageId (reactionId p)],
                        if removeOk then 0 else 1)
                  else (res, added, 0)))"

subsection \<open>ToolResultGuard: messages\<close>

datatype role = Assistant | ToolResult | User | System

text \<open>
  A content block.  \<open>Other\<close> stands for every block the guard leaves alone: images,
  values that are not objects, and blocks of type \<open>text\<close> whose \<open>text\<close> is not a string.
\<close>

datatype content_block =
    Text utf16
  | ToolCall string "string option"
  | Other

text \<open>\<open>content = None\<close> is a \<open>content\<close> that is not an array.\<close>

record agent_message =
  role :: role
  content :: "content_block list option"
  toolCallId :: "string option"
  toolName :: "string option"
  isError :: bool
  isSynthetic :: bool

record tool_meta =
  metaToolCallId :: "string option"
  metaToolName :: "string option"
  metaIsSynthetic :: bool

definition GUARD_TRUNCATION_SUFFIX :: utf16 where
  "GUARD_TRUNCATION_SUFFIX =
     [NEWLINE, NEWLINE, 9888, 65039]
     @ ascii '' [Content truncated during persistence ''
     @ [8212]
     @ ascii '' original exceeded size limit. ''
     @ ascii ''Use offset/limit parameters or request specific sections for large content.]''"

definition RECOVERABLE_ERROR_HINT_PREFIX :: utf16 where
  "RECOVERABLE_ERROR_HINT_PREFIX = [NEWLINE, NEWLINE] @ ascii ''[RECOVERABLE_TOOL_ERROR]''"

text \<open>
  What the guard imports from files that are not part of the sources at hand:
  the constant \<open>HARD_MAX_TOOL_RESULT_CHARS\<close>, the input sanitizer
  \<open>sanitizeToolCallInputs\<close> (a list of messages in, a list out), and, for the annotation
  of recoverable errors, the text work of lines 81 to 111 of the guard: \<open>editHint\<close> takes
  the joined text of the result and the tool-call id and returns the hint to append when
  the text matches the exact-match failure of the \<open>edit\<close> tool.
\<close>

record guard_deps =
  HARD_MAX_TOOL_RESULT_CHARS :: nat
  sanitizeToolCallInputs :: "agent_message list \<Rightarrow> agent_message list"
  editHint :: "utf16 \<Rightarrow> string option \<Rightarrow> utf16 option"

text \<open>
  Modelled from the spec: \<open>extractToolResultId\<close> of \<open>tool-call-id.js\<close> is not among
  the sources; the spec says the guard extracts the \<open>toolCallId\<close> of a tool result.
\<close>

definition extractToolResultId :: "agent_message \<Rightarrow> string option" where
  "extractToolResultId m = toolCallId m"

fun toolCallsOfBlocks :: "content_block list \<Rightarrow> (string \<times> string option) list" where
  "toolCallsOfBlocks [] = []"
| "toolCallsOfBlocks (ToolCall i n # bs) = (i, n) # toolCallsOfBlocks bs"
| "toolCallsOfBlocks (_ # bs) = toolCallsOfBlocks bs"

text \<open>
  Modelled from the spec: \<open>extractToolCallsFromAssistant\<close> of \<open>tool-call-id.js\<close> is not
  among the sources; the spec speaks of the tool calls of an assistant message, each with
  an id and a name.
\<close>

definition extractToolCallsFromAssistant :: "agent_message \<Rightarrow> (string \<times> string option) list" where
  "extractToolCallsFromAssistant m =
     (case content m of None \<Rightarrow> [] | Some bs \<Rightarrow> toolCallsOfBlocks bs)"

definition MISSING_RESULT_TEXT :: utf16 where
  "MISSING_RESULT_TEXT = ascii ''missing tool result''"

text \<open>
  Modelled from the spec: \<open>makeMissingToolResult\<close> of \<open>session-transcript-repair.js\<close> is
  not among the sources; the spec says the flush synthesizes, for a pending id, a
  placeholder tool-result message marked \<open>isSynthetic = true\<close>.
\<close>

definition makeMissingToolResult :: "string \<Rightarrow> string option \<Rightarrow> agent_message" where
  "makeMissingToolResult i n =
     \<lparr>role = ToolResult, content = Some [Text MISSING_RESULT_TEXT], toolCallId = Some i,
      toolName = n, isError = True, isSynthetic = True\<rparr>"

subsection \<open>ToolResultGuard: annotation and size cap\<close>

fun textsOfBlocks :: "content_block list \<Rightarrow> utf16 list" where
  "textsOfBlocks [] = []"
| "textsOfBlocks (Text t # bs) = t # textsOfBlocks bs"
| "textsOfBlocks (_ # bs) = textsOfBlocks bs"

definition getToolResultTextBlocks :: "agent_message \<Rightarrow> utf16 list" where
  "getToolResultTextBlocks msg =
     (if role msg \<noteq> ToolResult then []
      else case content msg of None \<Rightarrow> [] | Some bs \<Rightarrow> textsOfBlocks bs)"

definition appendToolResultHint :: "agent_message \<Rightarrow> utf16 \<Rightarrow> agent_message" where
  "appendToolResultHint msg hint =
     (if role msg \<noteq> ToolResult then msg
      else case content msg of
             None \<Rightarrow> msg
           | Some bs \<Rightarrow> msg\<lparr>content := Some (bs @ [Text hint])\<rparr>)"

fun joinLines :: "utf16 list \<Rightarrow> utf16" where
  "joinLines [] = []"
| "joinLines [t] = t"
| "joinLines (t # ts) = t @ [NEWLINE] @ joinLines ts"

definition isSpace :: "char \<Rightarrow> bool" where
  "isSpace c = (c \<in> set [CHR '' '', CHR 0x09, CHR 0x0A, CHR 0x0B, CHR 0x0C, CHR 0x0D])"

definition trim :: "string \<Rightarrow> string" where
  "trim s = rev (dropWhile isSpace (rev (dropWhile isSpace s)))"

definition toLowerCase :: "string \<Rightarrow> string" where
  "toLowerCase s =
     map (\<lambda>c. if (65::nat) \<le> of_char c \<and> of_char c \<le> (90::nat)
              then char_of (of_char c + (32::nat)) else c) s"

definition annotateRecoverableToolErrors ::
  "guard_deps \<Rightarrow> agent_message \<Rightarrow> tool_meta \<Rightarrow> agent_message" where
  "annotateRecoverableToolErrors deps msg meta =
     (if metaIsSynthetic meta then msg
      else if role msg \<noteq> ToolResult then msg
      else
        let name = toLowerCase (trim (case metaToolName meta of
                                          Some n \<Rightarrow> n
                                        | None \<Rightarrow> (case toolName msg of Some n \<Rightarrow> n | None \<Rightarrow> [])))
        in if \<not> isError msg then msg
           else
             let existingText = joinLines (getToolResultTextBlocks msg)
             in if sublist RECOVERABLE_ERROR_HINT_PREFIX existingText then msg
                else if name = ''edit'' then
                  (case editHint deps existingText (metaToolCallId meta) of
                     Some hint \<Rightarrow> appendToolResultHint msg hint
                   | None \<Rightarrow> msg)
                else msg)"

fun totalTextChars :: "content_block list \<Rightarrow> nat" where
  "totalTextChars [] = 0"
| "totalTextChars (Text t # bs) = length t + totalTextChars bs"
| "totalTextChars (_ # bs) = totalTextChars bs"

text \<open>
  \<open>s.lastIndexOf(c, from)\<close> for a one-unit \<open>c\<close>: the greatest index not above \<open>from\<close>
  that holds \<open>c\<close>; \<open>None\<close> is the source's \<open>-1\<close>.
\<close>

definition lastIndexOf :: "utf16 \<Rightarrow> nat \<Rightarrow> nat \<Rightarrow> nat option" where
  "lastIndexOf s c from =
     (let hits = filter (\<lambda>i. s ! i = c) [0 ..< min (Suc from) (length s)]
      in if hits = [] then None else Some (last hits))"

text \<open>
  The budget of a block of \<open>len\<close> units out of \<open>total\<close>:
  \<open>Math.max(2000, Math.floor(HARD_MAX * (len / total)) - SUFFIX.length)\<close>.  The source
  computes the quotient and the product in double precision; the model takes their exact
  values.  The subtraction is the truncating one of \<open>nat\<close>, which gives the same maximum
  with 2000 as the source's possibly negative difference.
\<close>

definition blockBudget :: "nat \<Rightarrow> nat \<Rightarrow> nat \<Rightarrow> nat" where
  "blockBudget hardMax totalChars len =
     max 2000 ((hardMax * len) div totalChars - length GUARD_TRUNCATION_SUFFIX)"

text \<open>
  The cut of a block longer than its budget: the last newline at or before the budget
  when \<open>lastNewline > blockBudget * 0.8\<close> (over the integers: \<open>5 * lastNewline > 4 * budget\<close>),
  the budget itself otherwise.
\<close>

definition cutPoint :: "utf16 \<Rightarrow> nat \<Rightarrow> nat" where
  "cutPoint t budget =
     (case lastIndexOf t NEWLINE budget of
        None \<Rightarrow> budget
      | Some lastNewline \<Rightarrow> if 5 * lastNewline > 4 * budget then lastNewline else budget)"

fun capBlock :: "nat \<Rightarrow> nat \<Rightarrow> content_block \<Rightarrow> content_block" where
  "capBlock hardMax totalChars (Text t) =
     (let budget = blockBudget hardMax totalChars (length t)
      in if length t \<le> budget then Text t
         else Text (take (cutPoint t budget) t @ GUARD_TRUNCATION_SUFFIX))"
| "capBlock hardMax totalChars b = b"

definition capToolResultSize :: "guard_deps \<Rightarrow> agent_message \<Rightarrow> agent_message" where
  "capToolResultSize deps msg =
     (if role msg \<noteq> ToolResult then msg
      else case content msg of
             None \<Rightarrow> msg
           | Some bs \<Rightarrow>
               let totalChars = totalTextChars bs
               in if totalChars \<le> HARD_MAX_TOOL_RESULT_CHARS deps then msg
                  else msg\<lparr>content :=
                         Some (map (capBlock (HARD_MAX_TOOL_RESULT_CHARS deps) totalChars) bs)\<rparr>)"

subsection \<open>ToolResultGuard: the guarded append\<close>

record hook_result =
  hookBlock :: bool
  hookMessage :: "agent_message option"

record guard_opts =
  transformMessageForPersistence :: "(agent_message \<Rightarrow> agent_message) option"
  transformToolResultForPersistence :: "(agent_message \<Rightarrow> tool_meta \<Rightarrow> agent_message) option"
  allowSyntheticToolResults :: "bool option"
  beforeMessageWriteHook :: "(agent_message \<Rightarrow> hook_result option) option"

text \<open>
  The state the guard closes over: the pending map (a JavaScript \<open>Map\<close>, iterated in
  insertion order, hence an association list with distinct keys) and the transcript, to
  which \<open>originalAppend\<close> adds at the end.
\<close>

record guard_state =
  pending :: "(string \<times> string option) list"
  transcript :: "agent_message list"

definition guard_init :: guard_state where
  "guard_init = \<lparr>pending = [], transcript = []\<rparr>"

fun pendingSet :: "string \<Rightarrow> string option \<Rightarrow> (string \<times> string option) list
    \<Rightarrow> (string \<times> string option) list" where
  "pendingSet k v [] = [(k, v)]"
| "pendingSet k v ((k', v') # r) = (if k' = k then (k, v) # r else (k', v') # pendingSet k v r)"

definition pendingDelete :: "string \<Rightarrow> (string \<times> string option) list
    \<Rightarrow> (string \<times> string option) list" where
  "pendingDelete k p = filter (\<lambda>e. fst e \<noteq> k) p"

definition pendingGet :: "(string \<times> string option) list \<Rightarrow> string \<Rightarrow> string option" where
  "pendingGet p k = (case map_of p k of None \<Rightarrow> None | Some n \<Rightarrow> n)"

definition persistMessage :: "guard_opts \<Rightarrow> agent_message \<Rightarrow> agent_message" where
  "persistMessage opts m =
     (case transformMessageForPersistence opts of None \<Rightarrow> m | Some f \<Rightarrow> f m)"

definition persistToolResult ::
  "guard_deps \<Rightarrow> guard_opts \<Rightarrow> agent_message \<Rightarrow> tool_meta \<Rightarrow> agent_message" where
  "persistToolResult deps opts m meta =
     annotateRecoverableToolErrors deps
       (case transformToolResultForPersistence opts of None \<Rightarrow> m | Some f \<Rightarrow> f m meta) meta"

definition allowSynthetic :: "guard_opts \<Rightarrow> bool" where
  "allowSynthetic opts = (case allowSyntheticToolResults opts of None \<Rightarrow> True | Some b \<Rightarrow> b)"

definition applyBeforeWriteHook :: "guard_opts \<Rightarrow> agent_message \<Rightarrow> agent_message option" where
  "applyBeforeWriteHook opts msg =
     (case beforeMessageWriteHook opts of
        None \<Rightarrow> Some msg
      | Some beforeWrite \<Rightarrow>
          (case beforeWrite msg of
             None \<Rightarrow> Some msg
           | Some r \<Rightarrow> if hookBlock r then None
                       else (case hookMessage r of Some m' \<Rightarrow> Some m' | None \<Rightarrow> Some msg)))"

definition originalAppend :: "agent_message \<Rightarrow> guard_state \<Rightarrow> guard_state" where
  "originalAppend m st = st\<lparr>transcript := transcript st @ [m]\<rparr>"

definition flushOne ::
  "guard_deps \<Rightarrow> guard_opts \<Rightarrow> guard_state \<Rightarrow> string \<times> string option \<Rightarrow> guard_state" where
  "flushOne deps opts st e =
     (let synthetic = makeMissingToolResult (fst e) (snd e);
          flushed = applyBeforeWriteHook opts
                      (persistToolResult deps opts (persistMessage opts synthetic)
                         \<lparr>metaToolCallId = Some (fst e), metaToolName = snd e,
                          metaIsSynthetic = True\<rparr>)
      in case flushed of None \<Rightarrow> st | Some m \<Rightarrow> originalAppend m st)"

definition flushPendingToolResults :: "guard_deps \<Rightarrow> guard_opts \<Rightarrow> guard_state \<Rightarrow> guard_state" where
  "flushPendingToolResults deps opts st =
     (if pending st = [] then st
      else (if allowSynthetic opts then foldl (flushOne deps opts) st (pending st) else st)
             \<lparr>pending := []\<rparr>)"

text \<open>
  \<open>guardedAppend\<close>.  Its return value (the entry id of \<open>originalAppend\<close>, or
  \<open>undefined\<close>) and the transcript-update event it emits are not part of the state.
\<close>

definition appendToolResult ::
  "guard_deps \<Rightarrow> guard_opts \<Rightarrow> guard_state \<Rightarrow> agent_message \<Rightarrow> guard_state" where
  "appendToolResult deps opts st nextMessage =
     (let id = extractToolResultId nextMessage;
          toolName = (if truthy id then pendingGet (pending st) (the id) else None);
          st1 = (if truthy id then st\<lparr>pending := pendingDelete (the id) (pending st)\<rparr> else st);
          capped = capToolResultSize deps (persistMessage opts nextMessage);
          persisted = applyBeforeWriteHook opts
                        (persistToolResult deps opts capped
                           \<lparr>metaToolCallId = id, metaToolName = toolName,
                            metaIsSynthetic = False\<rparr>)
      in case persisted of None \<Rightarrow> st1 | Some m \<Rightarrow> originalAppend m st1)"

definition appendOther ::
  "guard_deps \<Rightarrow> guard_opts \<Rightarrow> guard_state \<Rightarrow> agent_message \<Rightarrow> guard_state" where
  "appendOther deps opts st nextMessage =
     (let toolCalls = (if role nextMessage = Assistant
                       then extractToolCallsFromAssistant nextMessage else []);
          st1 = (if allowSynthetic opts \<and> pending st \<noteq> []
                    \<and> (toolCalls = [] \<or> role nextMessage \<noteq> Assistant)
                 then flushPendingToolResults deps opts st else st);
          st2 = (if allowSynthetic opts \<and> pending st1 \<noteq> [] \<and> toolCalls \<noteq> []
                 then flushPendingToolResults deps opts st1 else st1)
      in case applyBeforeWriteHook opts (persistMessage opts nextMessage) of
           None \<Rightarrow> st2
         | Some finalMessage \<Rightarrow>
             (let st3 = originalAppend finalMessage st2
              in st3\<lparr>pending := foldl (\<lambda>p c. pendingSet (fst c) (snd c) p) (pending st3) toolCalls\<rparr>))"

text \<open>
  The message \<open>guardedAppend\<close> goes on with: an assistant message is replaced by the
  first message the sanitizer returns; \<open>None\<close> when the sanitizer returns no message.
\<close>

definition nextMessageOf :: "guard_deps \<Rightarrow> agent_message \<Rightarrow> agent_message option" where
  "nextMessageOf deps message =
     (if role message = Assistant then
        (case sanitizeToolCallInputs deps [message] of
           [] \<Rightarrow> None
         | sanitized0 # _ \<Rightarrow> Some sanitized0)
      else Some message)"

definition guardedAppend ::
  "guard_deps \<Rightarrow> guard_opts \<Rightarrow> guard_state \<Rightarrow> agent_message \<Rightarrow> guard_state" where
  "guardedAppend deps opts st message =
     (case nextMessageOf deps message of
        None \<Rightarrow> (if allowSynthetic opts \<and> pending st \<noteq> []
                  then flushPendingToolResults deps opts st else st)
      | Some nextMessage \<Rightarrow>
          if role nextMessage = ToolResult then appendToolResult deps opts st nextMessage
          else appendOther deps opts st nextMessage)"

subsection \<open>ToolResultGuard: reading a transcript\<close>

text \<open>The ids of the tool calls an entry of the transcript makes.\<close>

definition callIds :: "agent_message \<Rightarrow> string list" where
  "callIds m = (if role m = Assistant then map fst (extractToolCallsFromAssistant m) else [])"

text \<open>
  \<open>openCalls\<close> reads a transcript from the left, carrying the tool-call ids that have not
  been answered yet.  A tool result answers its id.  Any other message must find no
  unanswered id (otherwise the reading fails with \<open>None\<close>) and opens the ids it calls.
\<close>

fun openCalls :: "string list \<Rightarrow> agent_message list \<Rightarrow> string list option" where
  "openCalls opn [] = Some opn"
| "openCalls opn (m # ms) =
     (if role m = ToolResult
      then openCalls (filter (\<lambda>k. extractToolResultId m \<noteq> Some k) opn) ms
      else if opn = [] then openCalls (callIds m) ms else None)"

subsection \<open>ToolResultGuard: notions used in the statements\<close>

text \<open>Options that install no transform and no before-write hook.\<close>

definition plain_opts :: "guard_opts \<Rightarrow> bool" where
  "plain_opts opts = (transformMessageForPersistence opts = None \<and>
     transformToolResultForPersistence opts = None \<and> beforeMessageWriteHook opts = None)"

text \<open>
  The invariant of the guard: the transcript reads without failure, and every id it
  leaves unanswered is a key of the pending map.
\<close>

definition guard_inv :: "guard_state \<Rightarrow> bool" where
  "guard_inv st = (\<exists>opn. openCalls [] (transcript st) = Some opn \<and>
                     set opn \<subseteq> fst ` set (pending st))"

text \<open>Concrete inputs for the examples.\<close>

definition example_deps :: guard_deps where
  "example_deps = \<lparr>HARD_MAX_TOOL_RESULT_CHARS = 400000, sanitizeToolCallInputs = (\<lambda>ms. ms),
                   editHint = (\<lambda>t i. None)\<rparr>"

definition no_opts :: guard_opts where
  "no_opts = \<lparr>transformMessageForPersistence = None, transformToolResultForPersistence = None,
              allowSyntheticToolResults = None, beforeMessageWriteHook = None\<rparr>"

definition no_synth_opts :: guard_opts where
  "no_synth_opts = \<lparr>transformMessageForPersistence = None,
     transformToolResultForPersistence = None,
     allowSyntheticToolResults = Some False, beforeMessageWriteHook = None\<rparr>"

definition block_results_opts :: guard_opts where
  "block_results_opts = \<lparr>transformMessageForPersistence = None,
     transformToolResultForPersistence = None,
     allowSyntheticToolResults = None,
     beforeMessageWriteHook =
       Some (\<lambda>m. if role m = ToolResult then Some \<lparr>hookBlock = True, hookMessage = None\<rparr>
                  else None)\<rparr>"

definition asst1 :: agent_message where
  "asst1 = \<lparr>role = Assistant, content = Some [ToolCall ''call_1'' (Some ''edit'')],
            toolCallId = None, toolName = None, isError = False, isSynthetic = False\<rparr>"

definition user1 :: agent_message where
  "user1 = \<lparr>role = User, content = Some [Text (ascii ''next'')],
            toolCallId = None, toolName = None, isError = False, isSynthetic = False\<rparr>"


subsection \<open>InboundGate: the in-memory deduplication map\<close>

definition DEDUP_TTL_MS :: int where
  "DEDUP_TTL_MS = 30 * 60 * 1000"

definition DEDUP_MAX_SIZE :: nat where
  "DEDUP_MAX_SIZE = 1000"

definition DEDUP_CLEANUP_INTERVAL_MS :: int where
  "DEDUP_CLEANUP_INTERVAL_MS = 5 * 60 * 1000"

text \<open>
  The module state of the deduplication: \<open>processedMessageIds\<close>, a \<open>Map\<close> from message id
  to the gateway time of its first delivery, in insertion order, and \<open>lastCleanupTime\<close>.
  Times are the values of \<open>Date.now()\<close>, in milliseconds.
\<close>

record dedup_state =
  processedMessageIds :: "(string \<times> int) list"
  lastCleanupTime :: int

text \<open>
  \<open>tryRecordMessage\<close> at gateway time \<open>now\<close>: sweep the expired entries when the interval
  has passed, refuse an id that is present, otherwise evict the first key when the map is
  full and insert the id.
\<close>

definition tryRecordMessage :: "int \<Rightarrow> string \<Rightarrow> dedup_state \<Rightarrow> bool \<times> dedup_state" where
  "tryRecordMessage now messageId st =
     (let st1 = (if now - lastCleanupTime st > DEDUP_CLEANUP_INTERVAL_MS
                 then \<lparr>processedMessageIds =
                         filter (\<lambda>e. \<not> (now - snd e > DEDUP_TTL_MS)) (processedMessageIds st),
                       lastCleanupTime = now\<rparr>
                 else st)
      in if messageId \<in> fst ` set (processedMessageIds st1) then (False, st1)
         else
           (let kept = (if length (processedMessageIds st1) \<ge> DEDUP_MAX_SIZE
                        then drop 1 (processedMessageIds st1)
                        else processedMessageIds st1)
            in (True, st1\<lparr>processedMessageIds := kept @ [(messageId, now)]\<rparr>)))"

text \<open>A run of deliveries through \<open>tryRecordMessage\<close>: the answers, in order.\<close>

fun tryRecordAll :: "(int \<times> string) list \<Rightarrow> dedup_state \<Rightarrow> bool list" where
  "tryRecordAll [] st = []"
| "tryRecordAll ((now, messageId) # rest) st =
     (case tryRecordMessage now messageId st of
        (ok, st') \<Rightarrow> ok # tryRecordAll rest st')"

subsection \<open>InboundGate: configuration and persisted state\<close>

definition FEISHU_RECENT_IDS_LIMIT :: nat where
  "FEISHU_RECENT_IDS_LIMIT = 250"

definition FEISHU_STALE_SKEW_WINDOW_MS :: int where
  "FEISHU_STALE_SKEW_WINDOW_MS = 5000"

text \<open>
  The \<open>staleDrop\<close> object of the configuration; every field may be missing.  The numbers
  are taken as integers (the source floors them).
\<close>

record stale_drop_raw =
  rawEnabled :: "bool option"
  rawReply :: "bool option"
  rawSkewWindowMs :: "int option"
  rawRecentIdsLimit :: "int option"

record stale_drop_config =
  enabled :: bool
  reply :: bool
  skewWindowMs :: int
  recentIdsLimit :: nat

definition resolveStaleDropConfig :: "stale_drop_raw \<Rightarrow> stale_drop_config" where
  "resolveStaleDropConfig cfg =
     \<lparr>enabled = (rawEnabled cfg \<noteq> Some False),
      reply = (rawReply cfg \<noteq> Some False),
      skewWindowMs = (case rawSkewWindowMs cfg of
                        Some w \<Rightarrow> max 0 w | None \<Rightarrow> FEISHU_STALE_SKEW_WINDOW_MS),
      recentIdsLimit = (case rawRecentIdsLimit cfg of
                          Some l \<Rightarrow> nat (max 1 l) | None \<Rightarrow> FEISHU_RECENT_IDS_LIMIT)\<rparr>"

text \<open>
  The persisted state of one chat, as read from its file; \<open>recentMessageIds = None\<close> is
  a missing field or one that is not an array.  A missing or unreadable file reads as the
  state with no field.
\<close>

record inbound_state =
  lastProcessedSentAtMs :: "int option"
  recentMessageIds :: "string list option"
  updatedAtMs :: "int option"

definition empty_inbound_state :: inbound_state where
  "empty_inbound_state =
     \<lparr>lastProcessedSentAtMs = None, recentMessageIds = None, updatedAtMs = None\<rparr>"

subsection \<open>InboundGate: the create time of an event\<close>

datatype jsnumber = Num int | NaN | PosInfinity | NegInfinity

definition isDigit :: "char \<Rightarrow> bool" where
  "isDigit c = ((48::nat) \<le> of_char c \<and> of_char c \<le> (57::nat))"

fun digitsValue :: "int \<Rightarrow> string \<Rightarrow> int" where
  "digitsValue acc [] = acc"
| "digitsValue acc (c # cs) = digitsValue (10 * acc + (int (of_char c) - 48)) cs"

text \<open>
  \<open>Number.parseInt(s, 10)\<close>: leading white space, an optional sign, then the longest run
  of decimal digits; \<open>NaN\<close> when there is no digit.  The value is exact here; the source
  rounds it to the nearest double, which gives an infinity from \<open>2^1024 - 2^970\<close> on.
\<close>

definition parseInt10 :: "string \<Rightarrow> jsnumber" where
  "parseInt10 s =
     (let t = dropWhile isSpace s;
          neg = (t \<noteq> [] \<and> hd t = CHR ''-'');
          r = (if t \<noteq> [] \<and> (hd t = CHR ''-'' \<or> hd t = CHR ''+'') then tl t else t);
          ds = takeWhile isDigit r
      in if ds = [] then NaN
         else if digitsValue 0 ds \<ge> 2 ^ 1024 - 2 ^ 970
              then (if neg then NegInfinity else PosInfinity)
              else Num (if neg then - digitsValue 0 ds else digitsValue 0 ds))"

text \<open>
  \<open>createTimeMs\<close> of \<open>parseFeishuMessageEvent\<close>: \<open>undefined\<close> when \<open>create_time\<close> is
  missing or empty, or when it does not parse to a finite number.
\<close>

definition createTimeMsOf :: "string option \<Rightarrow> int option" where
  "createTimeMsOf create_time =
     (if truthy create_time
      then (case parseInt10 (the create_time) of Num v \<Rightarrow> Some v | _ \<Rightarrow> None)
      else None)"

text \<open>The fields of the event and of the parsed context that the admission reads.\<close>

record feishu_event =
  message_id :: string
  chat_id :: string
  chat_type_group :: bool
  create_time :: "string option"
  sender_open_id :: "string option"

record feishu_ctx =
  chatId :: string
  messageId :: string
  senderOpenId :: string
  isGroup :: bool
  createTimeMs :: "int option"

definition parseFeishuMessageEvent :: "feishu_event \<Rightarrow> feishu_ctx" where
  "parseFeishuMessageEvent event =
     \<lparr>chatId = chat_id event,
      messageId = message_id event,
      senderOpenId = (case sender_open_id event of Some s \<Rightarrow> s | None \<Rightarrow> []),
      isGroup = chat_type_group event,
      createTimeMs = createTimeMsOf (create_time event)\<rparr>"

subsection \<open>InboundGate: the persistent check\<close>

text \<open>
  Formatting done by the JavaScript runtime: a number as decimal text, and
  \<open>new Date(ms).toISOString()\<close>, which throws a \<open>RangeError\<close> outside the range of dates.
\<close>

record js_format =
  numberToString :: "int \<Rightarrow> utf16"
  isoString :: "int \<Rightarrow> utf16"

definition validDate :: "int \<Rightarrow> bool" where
  "validDate ms = (\<bar>ms\<bar> \<le> 8640000000000000)"

text \<open>
  What the effects of one run answer: whether the state directory resolves, whether the
  provider accepts the stale notice, whether the state file can be written.  Each of the
  three throws inside the \<open>try\<close> of the handler when it fails.
\<close>

record gate_io =
  stateDirOk :: bool
  sendOk :: bool
  writeOk :: bool

record send_call =
  sendTo :: string
  replyToMessageId :: "string option"
  sendText :: utf16
  sendAccountId :: string

datatype gate_outcome = SkipDuplicate | DropStale | Proceed

text \<open>
  The result of the persistent check: how the handler goes on, the calls of
  \<open>sendMessageFeishu\<close> it made, the state it wrote (if a write succeeded), and whether
  the \<open>catch\<close> was reached.
\<close>

record gate_result =
  outcome :: gate_outcome
  sends :: "send_call list"
  written :: "inbound_state option"
  caught :: bool

definition STALE_NOTICE_HEAD :: utf16 where
  "STALE_NOTICE_HEAD = [36807, 26399, 28040, 24687, 65292, 34987, 24573, 30053, 12290, NEWLINE]"

definition staleText :: "js_format \<Rightarrow> int \<Rightarrow> int \<Rightarrow> utf16" where
  "staleText fmt sentAt lst =
     STALE_NOTICE_HEAD
     @ ascii ''sentAt='' @ numberToString fmt sentAt @ ascii '' ('' @ isoString fmt sentAt
       @ ascii '')'' @ [NEWLINE]
     @ ascii ''lastProcessedSentAt='' @ numberToString fmt lst @ ascii '' (''
       @ isoString fmt lst @ ascii '')'' @ [NEWLINE]
     @ ascii ''reason=out_of_order_delivery''"

text \<open>\<open>recent.push(id); recent.slice(-limit)\<close>.\<close>

definition pushRecent :: "nat \<Rightarrow> string list \<Rightarrow> string \<Rightarrow> string list" where
  "pushRecent limit recent newId =
     drop (length (recent @ [newId]) - limit) (recent @ [newId])"

text \<open>
  The body of \<open>if (staleCfg.enabled) { try { ... } catch { ... } }\<close> of the handler.
  An effect that fails throws; the \<open>catch\<close> logs and the handler goes on with the message.
\<close>

definition persistentGate ::
  "js_format \<Rightarrow> stale_drop_config \<Rightarrow> int \<Rightarrow> string \<Rightarrow> feishu_ctx \<Rightarrow> inbound_state \<Rightarrow> gate_io
     \<Rightarrow> gate_result" where
  "persistentGate fmt staleCfg now accountId ctx state io =
     (if \<not> stateDirOk io
      then \<lparr>outcome = Proceed, sends = [], written = None, caught = True\<rparr>
      else
        let recent = (case recentMessageIds state of Some r \<Rightarrow> r | None \<Rightarrow> [])
        in if messageId ctx \<in> set recent
           then \<lparr>outcome = SkipDuplicate, sends = [], written = None, caught = False\<rparr>
           else
             (case (createTimeMs ctx, lastProcessedSentAtMs state) of
                (Some sentAt, Some lst) \<Rightarrow>
                  if sentAt < lst - skewWindowMs staleCfg then
                    (if \<not> (validDate sentAt \<and> validDate lst)
                     then \<lparr>outcome = Proceed, sends = [], written = None, caught = True\<rparr>
                     else
                       let notice = \<lparr>sendTo = (if isGroup ctx then chatId ctx
                                                 else senderOpenId ctx),
                                     replyToMessageId = Some (messageId ctx),
                                     sendText = staleText fmt sentAt lst,
                                     sendAccountId = accountId\<rparr>;
                           attempted = (if reply staleCfg then [notice] else [])
                       in if reply staleCfg \<and> \<not> sendOk io
                          then \<lparr>outcome = Proceed, sends = attempted, written = None,
                                caught = True\<rparr>
                          else if \<not> writeOk io
                          then \<lparr>outcome = Proceed, sends = attempted, written = None,
                                caught = True\<rparr>
                          else \<lparr>outcome = DropStale, sends = attempted,
                                written = Some (state
                                  \<lparr>recentMessageIds :=
                                     Some (pushRecent (recentIdsLimit staleCfg) recent
                                             (messageId ctx)),
                                   updatedAtMs := Some now\<rparr>),
                                caught = False\<rparr>)
                  else
                    (if \<not> writeOk io
                     then \<lparr>outcome = Proceed, sends = [], written = None, caught = True\<rparr>
                     else \<lparr>outcome = Proceed, sends = [],
                           written = Some
                             \<lparr>lastProcessedSentAtMs = Some (max lst sentAt),
                              recentMessageIds =
                                Some (pushRecent (recentIdsLimit staleCfg) recent
                                        (messageId ctx)),
                              updatedAtMs = Some now\<rparr>,
                           caught = False\<rparr>)
              | (sentAtOpt, lstOpt) \<Rightarrow>
                  (if \<not> writeOk io
                   then \<lparr>outcome = Proceed, sends = [], written = None, caught = True\<rparr>
                   else \<lparr>outcome = Proceed, sends = [],
                         written = Some
                           \<lparr>lastProcessedSentAtMs =
                              (case sentAtOpt of
                                 Some sentAt \<Rightarrow>
                                   Some (max (case lstOpt of Some l \<Rightarrow> l | None \<Rightarrow> 0) sentAt)
                               | None \<Rightarrow> lstOpt),
                            recentMessageIds =
                              Some (pushRecent (recentIdsLimit staleCfg) recent
                                      (messageId ctx)),
                            updatedAtMs = Some now\<rparr>,
                         caught = False\<rparr>)))"

subsection \<open>InboundGate: admission of an event by the handler\<close>

datatype admission = SkippedInMemoryDuplicate | SkippedPersistentDuplicate | DroppedStale
  | Continued

text \<open>
  The head of \<open>handleFeishuMessage\<close>, up to the end of the persistent check.  The rest of
  the handler (policy checks, task record, dispatch to the agent) runs only when the head
  does not return; \<open>rest\<close> gives the number of agent dispatches it makes for the parsed
  message.  \<open>persisted\<close> is the state read from the file of the chat.
\<close>

record handle_result =
  admitted :: admission
  dispatches :: nat
  handlerSends :: "send_call list"
  dedupAfter :: dedup_state
  stateAfter :: inbound_state

definition handleFeishuMessage_head ::
  "js_format \<Rightarrow> stale_drop_raw \<Rightarrow> string \<Rightarrow> (feishu_ctx \<Rightarrow> nat) \<Rightarrow> int \<Rightarrow> gate_io
     \<Rightarrow> feishu_event \<Rightarrow> dedup_state \<Rightarrow> inbound_state \<Rightarrow> handle_result" where
  "handleFeishuMessage_head fmt rawCfg accountId rest now io event dedup persisted =
     (case tryRecordMessage now (message_id event) dedup of
        (False, dedup') \<Rightarrow>
          \<lparr>admitted = SkippedInMemoryDuplicate, dispatches = 0, handlerSends = [],
           dedupAfter = dedup', stateAfter = persisted\<rparr>
      | (True, dedup') \<Rightarrow>
          let ctx = parseFeishuMessageEvent event;
              staleCfg = resolveStaleDropConfig rawCfg
          in if enabled staleCfg then
               (let g = persistentGate fmt staleCfg now accountId ctx persisted io;
                    state' = (case written g of Some s \<Rightarrow> s | None \<Rightarrow> persisted)
                in case outcome g of
                     SkipDuplicate \<Rightarrow>
                       \<lparr>admitted = SkippedPersistentDuplicate, dispatches = 0,
                        handlerSends = sends g, dedupAfter = dedup', stateAfter = state'\<rparr>
                   | DropStale \<Rightarrow>
                       \<lparr>admitted = DroppedStale, dispatches = 0,
                        handlerSends = sends g, dedupAfter = dedup', stateAfter = state'\<rparr>
                   | Proceed \<Rightarrow>
                       \<lparr>admitted = Continued, dispatches = rest ctx,
                        handlerSends = sends g, dedupAfter = dedup', stateAfter = state'\<rparr>)
             else
               \<lparr>admitted = Continued, dispatches = rest ctx, handlerSends = [],
                dedupAfter = dedup', stateAfter = persisted\<rparr>)"

subsection \<open>InboundGate: notions used in the statements\<close>

text \<open>The recent ids of a persisted state, as the handler reads them.\<close>

definition recentOf :: "inbound_state \<Rightarrow> string list" where
  "recentOf state = (case recentMessageIds state of Some r \<Rightarrow> r | None \<Rightarrow> [])"

text \<open>Concrete inputs for the examples.\<close>

definition example_fmt :: js_format where
  "example_fmt = \<lparr>numberToString = (\<lambda>n. ascii ''n''), isoString = (\<lambda>n. ascii ''t'')\<rparr>"

definition cfg_scenario :: stale_drop_raw where
  "cfg_scenario = \<lparr>rawEnabled = Some True, rawReply = Some True, rawSkewWindowMs = Some 0,
                   rawRecentIdsLimit = Some 10\<rparr>"

definition cfg_disabled :: stale_drop_raw where
  "cfg_disabled = \<lparr>rawEnabled = Some False, rawReply = None, rawSkewWindowMs = None,
                   rawRecentIdsLimit = None\<rparr>"

definition cfg_default :: stale_drop_raw where
  "cfg_default = \<lparr>rawEnabled = None, rawReply = None, rawSkewWindowMs = None,
                   rawRecentIdsLimit = None\<rparr>"

definition io_ok :: gate_io where
  "io_ok = \<lparr>stateDirOk = True, sendOk = True, writeOk = True\<rparr>"

definition dedup_init :: "int \<Rightarrow> dedup_state" where
  "dedup_init t = \<lparr>processedMessageIds = [], lastCleanupTime = t\<rparr>"

definition om_old :: feishu_event where
  "om_old = \<lparr>message_id = ''om_old'', chat_id = ''oc_test'', chat_type_group = False,
             create_time = Some ''1000'', sender_open_id = Some ''ou_test''\<rparr>"

definition om_notime :: feishu_event where
  "om_notime = \<lparr>message_id = ''om_x'', chat_id = ''oc_test'', chat_type_group = False,
             create_time = None, sender_open_id = Some ''ou_test''\<rparr>"

definition seeded :: "string list \<Rightarrow> inbound_state" where
  "seeded ids = \<lparr>lastProcessedSentAtMs = Some 2000, recentMessageIds = Some ids,
                 updatedAtMs = None\<rparr>"

text \<open>Which deliveries of a run carry an id not seen before.\<close>

fun firsts :: "string list \<Rightarrow> string list \<Rightarrow> bool list" where
  "firsts seen [] = []"
| "firsts seen (x # xs) = (x \<notin> set seen) # firsts (x # seen) xs"

text \<open>
  The map holds exactly the ids seen, each once, none older than \<open>lo\<close>.
\<close>

definition dedup_inv :: "int \<Rightarrow> string list \<Rightarrow> dedup_state \<Rightarrow> bool" where
  "dedup_inv lo seen st =
     (fst ` set (processedMessageIds st) = set seen \<and> distinct (map fst (processedMessageIds st))
      \<and> list_all (\<lambda>e. lo \<le> snd e) (processedMessageIds st))"

definition deliveries3 :: "(int \<times> string) list" where
  "deliveries3 = [(0, ''om_a''), (1, ''om_a''), (2, ''om_b'')]"

subsection \<open>InFlightStore\<close>

datatype FeishuInFlightState =
  Received | Queued | Working | Waiting | Done | Failed | Interrupted

datatype chat_type = direct | group

text \<open>
  \<open>FeishuInFlightTask\<close>.  The fields carry the prefix \<open>task_\<close>; the constant field
  \<open>provider: "feishu"\<close> is left out.
\<close>

record FeishuInFlightTask =
  task_id :: string
  task_accountId :: string
  task_chatId :: string
  task_chatType :: chat_type
  task_userOpenId :: "string option"
  task_messageId :: string
  task_originalText :: utf16
  task_truncated :: "bool option"
  task_state :: FeishuInFlightState
  task_reaction :: "StatusReactionState option"
  task_runId :: "string option"
  task_resumeAttempts :: "nat option"
  task_updatedAtMs :: int
  task_interruptedHandled :: "bool option"

text \<open>
  \<open>FeishuInFlightStore\<close>, the content of the file of one account;
  \<open>lastInterruptibleByChatId\<close> is a map from chat id to task id (a missing field is the
  empty map).
\<close>

record FeishuInFlightStore =
  tasks :: "FeishuInFlightTask list"
  lastInterruptibleByChatId :: "string \<rightharpoonup> string"


fun upsertInto :: "FeishuInFlightTask \<Rightarrow> FeishuInFlightTask list \<Rightarrow> FeishuInFlightTask list" where
  "upsertInto task [] = [task]"
| "upsertInto task (t # ts) =
     (if task_id t = task_id task then task # ts else t # upsertInto task ts)"

definition upsertTask :: "FeishuInFlightStore \<Rightarrow> FeishuInFlightTask \<Rightarrow> FeishuInFlightStore" where
  "upsertTask store task = store\<lparr>tasks := upsertInto task (tasks store)\<rparr>"


definition setLastInterruptible ::
  "FeishuInFlightStore \<Rightarrow> string \<Rightarrow> string \<Rightarrow> FeishuInFlightStore" where
  "setLastInterruptible store chat taskId =
     store\<lparr>lastInterruptibleByChatId := (lastInterruptibleByChatId store)(chat \<mapsto> taskId)\<rparr>"


subsection \<open>TaskCoordinator: status transitions\<close>



record status_params =
  p_accountId :: string
  p_chatId :: string
  p_chatType :: chat_type
  p_userOpenId :: "string option"
  p_messageId :: string
  p_taskId :: string
  p_nextState :: FeishuInFlightState
  p_nextEmojiType :: string
  p_originalText :: "utf16 option"
  p_truncated :: "bool option"


subsection \<open>TaskCoordinator: the task flow of the inbound handler\<close>

text \<open>
  What the task flow reads of the parsed message.  \<open>wantsContinue\<close> is the value of
  \<open>isContinueMessage(ctx.content)\<close>.
\<close>

record task_ctx =
  c_accountId :: string
  c_chatId :: string
  c_messageId :: string
  c_senderOpenId :: string
  c_isGroup :: bool
  c_content :: utf16
  wantsContinue :: bool

definition attemptsOf :: "FeishuInFlightTask \<Rightarrow> nat" where
  "attemptsOf t = (case task_resumeAttempts t of Some n \<Rightarrow> n | None \<Rightarrow> 0)"



definition paramsFor ::
  "task_ctx \<Rightarrow> string \<Rightarrow> string \<Rightarrow> FeishuInFlightState \<Rightarrow> string \<Rightarrow> status_params" where
  "paramsFor ctx taskId anchorMessageId nextState emoji =
     \<lparr>p_accountId = c_accountId ctx, p_chatId = c_chatId ctx,
      p_chatType = (if c_isGroup ctx then group else direct),
      p_userOpenId = Some (c_senderOpenId ctx), p_messageId = anchorMessageId,
      p_taskId = taskId, p_nextState = nextState, p_nextEmojiType = emoji,
      p_originalText = None, p_truncated = None\<rparr>"












subsection \<open>TaskCoordinator: reconciliation at boot\<close>



subsection \<open>TaskCoordinator: finalization on an outbound reply\<close>





subsection \<open>TaskCoordinator: the invariant of the store and examples\<close>

text \<open>
  What every store written by the operations above satisfies: task ids are unique and
  no task carries more than two resume attempts.
\<close>

definition store_ok :: "FeishuInFlightStore \<Rightarrow> bool" where
  "store_ok store = (distinct (map task_id (tasks store))
     \<and> list_all (\<lambda>t. attemptsOf t \<le> 2) (tasks store))"











subsection \<open>AnnounceQueue\<close>

text \<open>
  \<open>subagent-announce-queue.ts\<close>.  The delivery context of an item is opaque here (a
  string); an absent \<open>highPriority\<close> is \<open>None\<close>.  Times are integers of milliseconds.
\<close>

datatype QueueMode = Followup | Collect

datatype QueueDropPolicy = Summarize | Old | New

record AnnounceQueueItem =
  announceId :: "string option"
  prompt :: string
  summaryLine :: "string option"
  enqueuedAt :: int
  sessionKey :: string
  origin :: "string option"
  originKey :: "string option"
  highPriority :: "bool option"


text \<open>
  \<open>AnnounceQueueState\<close> without its \<open>send\<close> callback, which is an effect (see
  \<open>drain_world\<close>).  \<open>maxAgeMs\<close> is always finite: \<open>getAnnounceQueue\<close> stores a clamped
  integer or the default.
\<close>

record AnnounceQueueState =
  items :: "AnnounceQueueItem list"
  draining :: bool
  lastEnqueuedAt :: int
  mode :: QueueMode
  debounceMs :: int
  cap :: int
  dropPolicy :: QueueDropPolicy
  droppedCount :: nat
  summaryLines :: "string list"
  maxAgeMs :: int

text \<open>
  The functions imported from \<open>queue-helpers.js\<close> and \<open>delivery-context.js\<close>, which are
  not among the sources: they are parameters of the model.  \<open>applyQueueDropPolicy\<close>
  returns whether to enqueue, and the queue as it leaves it.
\<close>

record queue_helpers =
  buildQueueSummaryPrompt :: "QueueDropPolicy \<Rightarrow> nat \<Rightarrow> string list \<Rightarrow> string option"
  buildCollectPrompt :: "AnnounceQueueItem list \<Rightarrow> string option \<Rightarrow> string"
  hasCrossChannelItems :: "AnnounceQueueItem list \<Rightarrow> bool"
  applyQueueDropPolicy :: "AnnounceQueueState \<Rightarrow> bool \<times> AnnounceQueueState"
  normalizeDeliveryContext :: "string option \<Rightarrow> string option"
  deliveryContextKey :: "string option \<Rightarrow> string option"

definition previewQueueSummaryPrompt :: "queue_helpers \<Rightarrow> AnnounceQueueState \<Rightarrow> string option" where
  "previewQueueSummaryPrompt h q =
     buildQueueSummaryPrompt h (dropPolicy q) (droppedCount q) (summaryLines q)"


definition isStaleItem :: "AnnounceQueueState \<Rightarrow> AnnounceQueueItem \<Rightarrow> int \<Rightarrow> bool" where
  "isStaleItem q item now =
     (if highPriority item = Some True then False
      else if maxAgeMs q \<le> 0 then False
      else now - enqueuedAt item > maxAgeMs q)"



text \<open>
  The effects of a drain.  \<open>clock\<close> gives the value of the successive readings of
  \<open>Date.now()\<close>, so the time the debounce wait and the sends take is in it;
  \<open>sendResult k\<close> tells whether the call number \<open>k\<close> of the \<open>send\<close> callback resolves
  (\<open>False\<close>: it throws).
\<close>

record drain_world =
  clock :: "nat \<Rightarrow> int"
  sendResult :: "nat \<Rightarrow> bool"

text \<open>
  The state of a run: the queue, the number of clock readings made, and the items
  passed to \<open>send\<close> so far, each with the time read by \<open>sendIfFresh\<close> just before.
\<close>

record drain_run =
  queue :: AnnounceQueueState
  ticks :: nat
  sent :: "(AnnounceQueueItem \<times> int) list"

text \<open>
  \<open>sendIfFresh\<close>: \<open>True\<close> when it returns, \<open>False\<close> when it rethrows the error of \<open>send\<close>.
\<close>

definition sendIfFresh :: "drain_world \<Rightarrow> AnnounceQueueItem \<Rightarrow> drain_run \<Rightarrow> bool \<times> drain_run" where
  "sendIfFresh w item r =
     (let now = clock w (ticks r);
          r1 = r\<lparr>ticks := ticks r + 1\<rparr>
      in if isStaleItem (queue r) item now then (True, r1)
         else (sendResult w (length (sent r)), r1\<lparr>sent := sent r @ [(item, now)]\<rparr>))"

definition dropStaleItemsInPlace :: "AnnounceQueueState \<Rightarrow> int \<Rightarrow> AnnounceQueueState" where
  "dropStaleItemsInPlace q now =
     (if maxAgeMs q \<le> 0 then q
      else q\<lparr>items := filter (\<lambda>item. \<not> isStaleItem q item now) (items q)\<rparr>)"

text \<open>
  One iteration of the \<open>while\<close> loop of the drain, entered with the flag
  \<open>forceIndividualCollect\<close>: it goes on to the next iteration (with the flag), leaves the
  loop by \<open>break\<close>, or throws.  No item is enqueued while the drain waits.
\<close>

datatype loop_step = Continue bool drain_run | Break drain_run | Threw drain_run

definition sendAndShift ::
  "drain_world \<Rightarrow> bool \<Rightarrow> AnnounceQueueItem \<Rightarrow> (AnnounceQueueState \<Rightarrow> AnnounceQueueState)
     \<Rightarrow> drain_run \<Rightarrow> loop_step" where
  "sendAndShift w force item after r =
     (case sendIfFresh w item r of
        (False, r') \<Rightarrow> Threw r'
      | (True, r') \<Rightarrow> Continue force (r'\<lparr>queue := after (queue r')\<rparr>))"









text \<open>
  The log of sends respects the maximal age \<open>m\<close>: every item passed to \<open>send\<close> was of
  high priority, or no older than \<open>m\<close> at that time, or \<open>m\<close> disables staleness.
\<close>

definition fresh_log :: "int \<Rightarrow> (AnnounceQueueItem \<times> int) list \<Rightarrow> bool" where
  "fresh_log m log =
     list_all (\<lambda>(item, t). highPriority item = Some True \<or> m \<le> 0 \<or> t - enqueuedAt item \<le> m) log"





text \<open>
  What a step of a drain leaves of the state before it: the maximal age, the log as a
  prefix, and the freshness of the log.
\<close>

definition extends :: "drain_run \<Rightarrow> drain_run \<Rightarrow> bool" where
  "extends r r' = (maxAgeMs (queue r') = maxAgeMs (queue r) \<and> prefix (sent r) (sent r')
     \<and> (fresh_log (maxAgeMs (queue r)) (sent r) \<longrightarrow> fresh_log (maxAgeMs (queue r)) (sent r')))"








section \<open>Properties\<close>

subsection \<open>StatusReactor\<close>

text \<open>
  C5.  \<open>replaceStatusReaction\<close> adds the new reaction first and keeps the id the provider
  returns.  It then calls remove, with the previous id, exactly when a previous reaction
  id exists and differs from the returned id; whether that remove succeeds changes only
  what is logged, never the result.  When the provider returns the id that \<open>prev\<close> holds, the
  add is the only provider call.  The result is the new emoji with the new id.  A failing
  add propagates and nothing is removed.
\<close>

theorem replaceStatusReaction_add_then_remove_other:
  "replaceStatusReaction (Inr rid) removeOk m e prev =
     (Inr \<lparr>emojiType = e, reactionId = rid\<rparr>,
      AddReaction m e #
        (case prev of
           None \<Rightarrow> []
         | Some p \<Rightarrow> if reactionId p \<noteq> [] \<and> reactionId p \<noteq> rid
                     then [RemoveReaction m (reactionId p)] else []),
      (case prev of
         None \<Rightarrow> 0
       | Some p \<Rightarrow> if reactionId p \<noteq> [] \<and> reactionId p \<noteq> rid \<and> \<not> removeOk then 1 else 0))
   \<and> replaceStatusReaction (Inr rid) removeOk m e (Some \<lparr>emojiType = pe, reactionId = rid\<rparr>)
       = (Inr \<lparr>emojiType = e, reactionId = rid\<rparr>, [AddReaction m e], 0)
   \<and> replaceStatusReaction (Inl err) removeOk m e prev = (Inl err, [AddReaction m e], 0)"
  by (simp add: replaceStatusReaction_def Let_def split: option.splits)

text \<open>
  The earlier snapshot of the file, for comparison: it removes the reaction it has just
  set when the provider answers with the id that \<open>prev\<close> holds.
\<close>

lemma replaceStatusReaction_earlier_removes_same_id:
  "replaceStatusReaction_earlier (Inr ''r1'') True ''om_1'' ''DONE''
       (Some \<lparr>emojiType = ''DONE'', reactionId = ''r1''\<rparr>)
     = (Inr \<lparr>emojiType = ''DONE'', reactionId = ''r1''\<rparr>,
        [AddReaction ''om_1'' ''DONE'', RemoveReaction ''om_1'' ''r1''], 0)"
  by (simp add: replaceStatusReaction_earlier_def)

subsection \<open>ToolResultGuard: the size cap\<close>


















subsection \<open>ToolResultGuard: pairing of tool calls and tool results\<close>

lemma openCalls_append:
  "openCalls opn (xs @ ys)
     = (case openCalls opn xs of None \<Rightarrow> None | Some o' \<Rightarrow> openCalls o' ys)"
  by (induction xs arbitrary: opn) simp_all

lemma openCalls_results:
  "\<forall>r \<in> set mid. role r = ToolResult \<Longrightarrow>
     openCalls opn mid
       = Some (filter (\<lambda>k. \<forall>r \<in> set mid. extractToolResultId r \<noteq> Some k) opn)"
proof (induction mid arbitrary: opn)
  case Nil
  show ?case by simp
next
  case (Cons m mid)
  have "filter (\<lambda>k. \<forall>r\<in>set mid. extractToolResultId r \<noteq> Some k)
          (filter (\<lambda>k. extractToolResultId m \<noteq> Some k) opn)
      = filter (\<lambda>k. \<forall>r\<in>set (m # mid). extractToolResultId r \<noteq> Some k) opn"
    by (induction opn) auto
  with Cons show ?case by simp
qed

text \<open>
  A transcript that reads without failure pairs every call: between a message that is not
  a tool result and the next such message, each id the first one calls has a tool result.
\<close>

lemma openCalls_paired:
  assumes ok: "openCalls opn tr = Some o'"
    and split: "tr = pre @ [a] @ mid @ [b] @ post"
    and a: "role a \<noteq> ToolResult" and mid: "\<forall>r \<in> set mid. role r = ToolResult"
    and b: "role b \<noteq> ToolResult" and k: "k \<in> set (callIds a)"
  shows "\<exists>r \<in> set mid. role r = ToolResult \<and> extractToolResultId r = Some k"
proof -
  from ok split obtain o1 where o1: "openCalls opn pre = Some o1"
    and r1: "openCalls o1 ([a] @ mid @ [b] @ post) = Some o'"
    by (auto simp: openCalls_append split: option.splits)
  from r1 a have r2: "openCalls (callIds a) (mid @ [b] @ post) = Some o'"
    by (simp split: if_splits)
  let ?left = "filter (\<lambda>k. \<forall>r \<in> set mid. extractToolResultId r \<noteq> Some k) (callIds a)"
  from r2 have r3: "openCalls ?left ([b] @ post) = Some o'"
    by (simp add: openCalls_append openCalls_results[OF mid])
  from r3 b have "?left = []" by (simp split: if_splits)
  with k have "\<not> (\<forall>r \<in> set mid. extractToolResultId r \<noteq> Some k)"
    by (auto simp: filter_empty_conv)
  then show ?thesis using mid by auto
qed

lemma keys_pendingSet: "fst ` set (pendingSet k v p) = insert k (fst ` set p)"
proof (induction p)
  case Nil
  show ?case by simp
next
  case (Cons e p)
  obtain k' v' where e: "e = (k', v')" by (cases e)
  show ?case using Cons.IH by (cases "k' = k") (simp_all add: e insert_commute)
qed

lemma keys_foldl_pendingSet:
  "fst ` set (foldl (\<lambda>p c. pendingSet (fst c) (snd c) p) p cs)
     = fst ` set p \<union> fst ` set cs"
proof (induction cs arbitrary: p)
  case Nil
  show ?case by simp
next
  case (Cons c cs)
  show ?case by (simp add: Cons.IH keys_pendingSet)
qed

lemma keys_pendingDelete: "fst ` set (pendingDelete k p) = fst ` set p - {k}"
  by (auto simp: pendingDelete_def)

lemma capToolResultSize_role [simp]: "role (capToolResultSize deps m) = role m"
  by (simp add: capToolResultSize_def Let_def split: option.splits)

lemma capToolResultSize_id [simp]: "toolCallId (capToolResultSize deps m) = toolCallId m"
  by (simp add: capToolResultSize_def Let_def split: option.splits)

lemma appendToolResultHint_role [simp]: "role (appendToolResultHint m h) = role m"
  by (simp add: appendToolResultHint_def split: option.splits)

lemma appendToolResultHint_id [simp]: "toolCallId (appendToolResultHint m h) = toolCallId m"
  by (simp add: appendToolResultHint_def split: option.splits)

lemma annotate_role [simp]: "role (annotateRecoverableToolErrors deps m meta) = role m"
  by (simp add: annotateRecoverableToolErrors_def Let_def split: option.splits)

lemma annotate_id [simp]: "toolCallId (annotateRecoverableToolErrors deps m meta) = toolCallId m"
  by (simp add: annotateRecoverableToolErrors_def Let_def split: option.splits)

lemma annotate_synthetic [simp]:
  "metaIsSynthetic meta \<Longrightarrow> annotateRecoverableToolErrors deps m meta = m"
  by (simp add: annotateRecoverableToolErrors_def)

lemma flushOne_plain:
  "plain_opts opts \<Longrightarrow>
   flushOne deps opts st e
     = st\<lparr>transcript := transcript st @ [makeMissingToolResult (fst e) (snd e)]\<rparr>"
  by (simp add: flushOne_def plain_opts_def applyBeforeWriteHook_def persistToolResult_def
      persistMessage_def originalAppend_def Let_def)

lemma foldl_flushOne_plain:
  "plain_opts opts \<Longrightarrow>
   foldl (flushOne deps opts) st es
     = st\<lparr>transcript := transcript st @ map (\<lambda>e. makeMissingToolResult (fst e) (snd e)) es\<rparr>"
  by (induction es arbitrary: st) (simp_all add: flushOne_plain)

lemma flush_plain:
  "plain_opts opts \<Longrightarrow> allowSynthetic opts \<Longrightarrow>
   flushPendingToolResults deps opts st
     = \<lparr>pending = [],
        transcript = transcript st
          @ map (\<lambda>e. makeMissingToolResult (fst e) (snd e)) (pending st)\<rparr>"
  by (simp add: flushPendingToolResults_def foldl_flushOne_plain)

lemma flush_pending [simp]: "pending (flushPendingToolResults deps opts st) = []"
  by (simp add: flushPendingToolResults_def)

lemma openCalls_synthetic:
  "openCalls opn (map (\<lambda>e. makeMissingToolResult (fst e) (snd e)) es)
     = Some (filter (\<lambda>k. k \<notin> fst ` set es) opn)"
proof -
  have "\<forall>r \<in> set (map (\<lambda>e. makeMissingToolResult (fst e) (snd e)) es). role r = ToolResult"
    by (simp add: makeMissingToolResult_def)
  from openCalls_results[OF this, of opn]
  show ?thesis
    by (simp add: makeMissingToolResult_def extractToolResultId_def image_iff) metis
qed

lemma guard_inv_flush:
  assumes "plain_opts opts" "allowSynthetic opts" "guard_inv st"
  shows "openCalls [] (transcript (flushPendingToolResults deps opts st)) = Some []"
proof -
  from assms(3) obtain opn where o: "openCalls [] (transcript st) = Some opn"
    and sub: "set opn \<subseteq> fst ` set (pending st)" by (auto simp: guard_inv_def)
  have "filter (\<lambda>k. k \<notin> fst ` set (pending st)) opn = []"
    using sub by (auto simp: filter_empty_conv)
  then show ?thesis
    using o by (simp add: flush_plain[OF assms(1,2)] openCalls_append openCalls_synthetic)
qed

lemma appendToolResult_plain:
  assumes "plain_opts opts"
  shows "appendToolResult deps opts st n =
     \<lparr>pending = (if truthy (toolCallId n) then pendingDelete (the (toolCallId n)) (pending st)
                  else pending st),
      transcript = transcript st @
        [annotateRecoverableToolErrors deps (capToolResultSize deps n)
           \<lparr>metaToolCallId = toolCallId n,
            metaToolName = (if truthy (toolCallId n)
                            then pendingGet (pending st) (the (toolCallId n)) else None),
            metaIsSynthetic = False\<rparr>]\<rparr>"
  using assms
  by (simp add: appendToolResult_def plain_opts_def applyBeforeWriteHook_def
      persistToolResult_def persistMessage_def originalAppend_def Let_def extractToolResultId_def)

lemma guard_inv_appendToolResult:
  assumes po: "plain_opts opts" and inv: "guard_inv st" and r: "role n = ToolResult"
  shows "guard_inv (appendToolResult deps opts st n)"
proof -
  from inv obtain opn where o: "openCalls [] (transcript st) = Some opn"
    and sub: "set opn \<subseteq> fst ` set (pending st)" by (auto simp: guard_inv_def)
  let ?opn' = "filter (\<lambda>k. toolCallId n \<noteq> Some k) opn"
  have scan: "openCalls [] (transcript (appendToolResult deps opts st n)) = Some ?opn'"
    using o r by (simp add: appendToolResult_plain[OF po] openCalls_append extractToolResultId_def)
  have "set ?opn' \<subseteq> fst ` set (pending (appendToolResult deps opts st n))"
  proof (cases "truthy (toolCallId n)")
    case True
    then obtain i where i: "toolCallId n = Some i" by (auto simp: truthy_def split: option.splits)
    show ?thesis using sub True i
      by (auto simp: appendToolResult_plain[OF po] keys_pendingDelete)
  next
    case False
    then show ?thesis using sub by (auto simp: appendToolResult_plain[OF po])
  qed
  with scan show ?thesis unfolding guard_inv_def by blast
qed

lemma appendOther_plain:
  assumes po: "plain_opts opts" and al: "allowSynthetic opts"
  shows "appendOther deps opts st n =
     \<lparr>pending = foldl (\<lambda>p c. pendingSet (fst c) (snd c) p) []
                  (if role n = Assistant then extractToolCallsFromAssistant n else []),
      transcript = transcript (if pending st = [] then st else flushPendingToolResults deps opts st)
                    @ [n]\<rparr>"
proof -
  let ?tc = "if role n = Assistant then extractToolCallsFromAssistant n else []"
  let ?st1 = "if allowSynthetic opts \<and> pending st \<noteq> [] \<and> (?tc = [] \<or> role n \<noteq> Assistant)
              then flushPendingToolResults deps opts st else st"
  let ?st2 = "if allowSynthetic opts \<and> pending ?st1 \<noteq> [] \<and> ?tc \<noteq> []
              then flushPendingToolResults deps opts ?st1 else ?st1"
  have st2: "?st2 = (if pending st = [] then st else flushPendingToolResults deps opts st)"
    using al by auto
  have p2: "pending ?st2 = []" unfolding st2 by simp
  have "appendOther deps opts st n =
      (originalAppend n ?st2)\<lparr>pending := foldl (\<lambda>p c. pendingSet (fst c) (snd c) p)
         (pending (originalAppend n ?st2)) ?tc\<rparr>"
    using po unfolding appendOther_def Let_def
    by (simp add: plain_opts_def applyBeforeWriteHook_def persistMessage_def)
  also have "\<dots> = \<lparr>pending = foldl (\<lambda>p c. pendingSet (fst c) (snd c) p) [] ?tc,
      transcript = transcript ?st2 @ [n]\<rparr>"
    using p2 by (simp add: originalAppend_def)
  finally show ?thesis unfolding st2 .
qed

lemma guard_inv_appendOther:
  assumes po: "plain_opts opts" and al: "allowSynthetic opts" and inv: "guard_inv st"
    and r: "role n \<noteq> ToolResult"
  shows "guard_inv (appendOther deps opts st n)"
proof -
  let ?st2 = "if pending st = [] then st else flushPendingToolResults deps opts st"
  have clean: "openCalls [] (transcript ?st2) = Some []"
  proof (cases "pending st = []")
    case True
    then show ?thesis using inv by (auto simp: guard_inv_def)
  next
    case False
    then show ?thesis using guard_inv_flush[OF po al inv] by simp
  qed
  have scan: "openCalls [] (transcript (appendOther deps opts st n)) = Some (callIds n)"
    using clean r by (simp add: appendOther_plain[OF po al] openCalls_append)
  have "set (callIds n) \<subseteq> fst ` set (pending (appendOther deps opts st n))"
    by (cases "role n = Assistant")
      (simp_all add: appendOther_plain[OF po al] keys_foldl_pendingSet callIds_def)
  with scan show ?thesis unfolding guard_inv_def by blast
qed

lemma guard_inv_guardedAppend:
  assumes po: "plain_opts opts" and al: "allowSynthetic opts" and inv: "guard_inv st"
  shows "guard_inv (guardedAppend deps opts st m)"
proof (cases "nextMessageOf deps m")
  case None
  show ?thesis
  proof (cases "pending st = []")
    case True
    then show ?thesis using None inv by (simp add: guardedAppend_def)
  next
    case False
    then show ?thesis using None al guard_inv_flush[OF po al inv]
      by (simp add: guardedAppend_def guard_inv_def)
  qed
next
  case (Some n)
  then show ?thesis
    using guard_inv_appendToolResult[OF po inv] guard_inv_appendOther[OF po al inv]
    by (simp add: guardedAppend_def)
qed

lemma guard_inv_init: "guard_inv guard_init"
  by (simp add: guard_inv_def guard_init_def)

lemma guard_inv_run:
  assumes "plain_opts opts" "allowSynthetic opts" "guard_inv st"
  shows "guard_inv (foldl (guardedAppend deps opts) st ms)"
  using assms(3)
  by (induction ms arbitrary: st) (simp_all add: guard_inv_guardedAppend[OF assms(1,2)])

lemma pending_appendOther:
  assumes al: "allowSynthetic opts"
  shows "fst ` set (pending (appendOther deps opts st n)) \<subseteq> set (callIds n)"
proof -
  let ?tc = "if role n = Assistant then extractToolCallsFromAssistant n else []"
  let ?st1 = "if allowSynthetic opts \<and> pending st \<noteq> [] \<and> (?tc = [] \<or> role n \<noteq> Assistant)
              then flushPendingToolResults deps opts st else st"
  let ?st2 = "if allowSynthetic opts \<and> pending ?st1 \<noteq> [] \<and> ?tc \<noteq> []
              then flushPendingToolResults deps opts ?st1 else ?st1"
  have p2: "pending ?st2 = []" using al by auto
  show ?thesis
  proof (cases "applyBeforeWriteHook opts (persistMessage opts n)")
    case None
    then have "pending (appendOther deps opts st n) = pending ?st2"
      unfolding appendOther_def Let_def by simp
    with p2 show ?thesis by simp
  next
    case (Some f)
    then have "pending (appendOther deps opts st n)
        = foldl (\<lambda>p c. pendingSet (fst c) (snd c) p) (pending (originalAppend f ?st2)) ?tc"
      unfolding appendOther_def Let_def by simp
    also have "\<dots> = foldl (\<lambda>p c. pendingSet (fst c) (snd c) p) [] ?tc"
      using p2 by (simp add: originalAppend_def)
    finally show ?thesis
      by (cases "role n = Assistant") (simp_all add: keys_foldl_pendingSet callIds_def)
  qed
qed

lemma pending_appendToolResult:
  "fst ` set (pending (appendToolResult deps opts st n)) \<subseteq> fst ` set (pending st)"
  by (auto simp: appendToolResult_def Let_def originalAppend_def pendingDelete_def
      split: option.splits)

lemma pending_guardedAppend:
  assumes al: "allowSynthetic opts"
  shows "fst ` set (pending (guardedAppend deps opts st m))
     \<subseteq> (case nextMessageOf deps m of
           None \<Rightarrow> {}
         | Some n \<Rightarrow> if role n = ToolResult then fst ` set (pending st) else set (callIds n))"
proof (cases "nextMessageOf deps m")
  case None
  then show ?thesis using al
    by (cases "pending st = []") (simp_all add: guardedAppend_def)
next
  case (Some n)
  then show ?thesis
    using pending_appendOther[OF al, of deps st n] pending_appendToolResult[of deps opts st n]
    by (simp add: guardedAppend_def)
qed

lemmas guard_eval = guardedAppend_def nextMessageOf_def appendOther_def appendToolResult_def
  flushPendingToolResults_def flushOne_def applyBeforeWriteHook_def persistToolResult_def
  persistMessage_def originalAppend_def allowSynthetic_def guard_init_def
  extractToolCallsFromAssistant_def extractToolResultId_def makeMissingToolResult_def
  annotateRecoverableToolErrors_def capToolResultSize_def truthy_def pendingDelete_def
  pendingGet_def Let_def

text \<open>
  C1, as the code has it.  With \<open>allowSyntheticToolResults\<close> on (its default), after the
  append of a message that is not a tool result the pending map holds only ids that this
  message calls (none when the sanitizer drops the message), and a tool result never adds
  a key.  When, in addition, no transform and no before-write hook is installed, a flush
  persists one placeholder per pending id, a tool result with that id marked
  \<open>isSynthetic\<close>, and empties the map; and in the transcript of any run of appends, for
  every id called by a message that is not a tool result, a tool result with that id
  stands before the next message that is not a tool result.
\<close>

theorem guard_pairing:
  assumes al: "allowSynthetic opts"
  shows "fst ` set (pending (guardedAppend deps opts st m))
           \<subseteq> (case nextMessageOf deps m of
                 None \<Rightarrow> {}
               | Some n \<Rightarrow> if role n = ToolResult then fst ` set (pending st)
                           else set (callIds n))
     \<and> (plain_opts opts \<longrightarrow>
          flushPendingToolResults deps opts st
            = \<lparr>pending = [],
               transcript = transcript st
                 @ map (\<lambda>e. makeMissingToolResult (fst e) (snd e)) (pending st)\<rparr>
        \<and> (\<forall>k n. role (makeMissingToolResult k n) = ToolResult
                 \<and> toolCallId (makeMissingToolResult k n) = Some k
                 \<and> isSynthetic (makeMissingToolResult k n))
        \<and> (\<forall>ms pre a mid b post k.
              transcript (foldl (guardedAppend deps opts) guard_init ms)
                = pre @ [a] @ mid @ [b] @ post
              \<and> role a \<noteq> ToolResult \<and> (\<forall>r \<in> set mid. role r = ToolResult)
              \<and> role b \<noteq> ToolResult \<and> k \<in> set (callIds a)
              \<longrightarrow> (\<exists>r \<in> set mid. role r = ToolResult \<and> toolCallId r = Some k)))"
proof (intro conjI impI allI)
  show "fst ` set (pending (guardedAppend deps opts st m))
           \<subseteq> (case nextMessageOf deps m of
                 None \<Rightarrow> {}
               | Some n \<Rightarrow> if role n = ToolResult then fst ` set (pending st)
                           else set (callIds n))"
    by (rule pending_guardedAppend[OF al])
next
  assume po: "plain_opts opts"
  show "flushPendingToolResults deps opts st
            = \<lparr>pending = [],
               transcript = transcript st
                 @ map (\<lambda>e. makeMissingToolResult (fst e) (snd e)) (pending st)\<rparr>"
    by (rule flush_plain[OF po al])
next
  fix k n
  show "role (makeMissingToolResult k n) = ToolResult"
    "toolCallId (makeMissingToolResult k n) = Some k"
    "isSynthetic (makeMissingToolResult k n)"
    by (simp_all add: makeMissingToolResult_def)
next
  fix ms pre a mid b post k
  assume po: "plain_opts opts"
  assume h: "transcript (foldl (guardedAppend deps opts) guard_init ms)
                = pre @ [a] @ mid @ [b] @ post
              \<and> role a \<noteq> ToolResult \<and> (\<forall>r \<in> set mid. role r = ToolResult)
              \<and> role b \<noteq> ToolResult \<and> k \<in> set (callIds a)"
  from guard_inv_run[OF po al guard_inv_init, of deps ms]
  obtain opn where
    "openCalls [] (transcript (foldl (guardedAppend deps opts) guard_init ms)) = Some opn"
    by (auto simp: guard_inv_def)
  from openCalls_paired[OF this, of pre a mid b post k] h
  show "\<exists>r \<in> set mid. role r = ToolResult \<and> toolCallId r = Some k"
    by (simp add: extractToolResultId_def)
qed

lemma run_default:
  "foldl (guardedAppend example_deps no_opts) guard_init [asst1, user1]
     = \<lparr>pending = [],
        transcript = [asst1, makeMissingToolResult ''call_1'' (Some ''edit''), user1]\<rparr>"
  by (simp add: guard_eval example_deps_def no_opts_def asst1_def user1_def)

theorem guard_pairing_witness:
  "allowSynthetic no_opts \<and> plain_opts no_opts
   \<and> transcript (foldl (guardedAppend example_deps no_opts) guard_init [asst1, user1])
       = [] @ [asst1] @ [makeMissingToolResult ''call_1'' (Some ''edit'')] @ [user1] @ []
   \<and> role asst1 \<noteq> ToolResult
   \<and> list_all (\<lambda>r. role r = ToolResult) [makeMissingToolResult ''call_1'' (Some ''edit'')]
   \<and> role user1 \<noteq> ToolResult \<and> ''call_1'' \<in> set (callIds asst1)
   \<and> (\<exists>r \<in> set [makeMissingToolResult ''call_1'' (Some ''edit'')].
         role r = ToolResult \<and> toolCallId r = Some ''call_1'')
   \<and> pending (guardedAppend example_deps no_opts
        \<lparr>pending = [(''call_0'', None)], transcript = []\<rparr> asst1) = [(''call_1'', Some ''edit'')]"
proof -
  have al: "allowSynthetic no_opts" by (simp add: allowSynthetic_def no_opts_def)
  have po: "plain_opts no_opts" by (simp add: plain_opts_def no_opts_def)
  have tr: "transcript (foldl (guardedAppend example_deps no_opts) guard_init [asst1, user1])
       = [] @ [asst1] @ [makeMissingToolResult ''call_1'' (Some ''edit'')] @ [user1] @ []"
    by (subst run_default) simp
  have r: "role asst1 \<noteq> ToolResult" "role user1 \<noteq> ToolResult"
    "\<forall>r \<in> set [makeMissingToolResult ''call_1'' (Some ''edit'')]. role r = ToolResult"
    "''call_1'' \<in> set (callIds asst1)"
    by (simp_all add: asst1_def user1_def makeMissingToolResult_def callIds_def
        extractToolCallsFromAssistant_def)
  from guard_pairing[OF al, of example_deps guard_init asst1] po
  have "\<forall>ms pre a mid b post k.
              transcript (foldl (guardedAppend example_deps no_opts) guard_init ms)
                = pre @ [a] @ mid @ [b] @ post
              \<and> role a \<noteq> ToolResult \<and> (\<forall>r \<in> set mid. role r = ToolResult)
              \<and> role b \<noteq> ToolResult \<and> k \<in> set (callIds a)
              \<longrightarrow> (\<exists>r \<in> set mid. role r = ToolResult \<and> toolCallId r = Some k)"
    by blast
  from this tr r have ex: "\<exists>r \<in> set [makeMissingToolResult ''call_1'' (Some ''edit'')].
         role r = ToolResult \<and> toolCallId r = Some ''call_1''"
    by blast
  have p: "pending (guardedAppend example_deps no_opts
        \<lparr>pending = [(''call_0'', None)], transcript = []\<rparr> asst1) = [(''call_1'', Some ''edit'')]"
    by (simp add: guard_eval example_deps_def no_opts_def asst1_def)
  show ?thesis using al po tr r ex p by simp
qed

text \<open>
  The claim, stated for every configuration, fails on the code.  With
  \<open>allowSyntheticToolResults = false\<close> the guard never flushes: after an assistant message
  calling \<open>call_1\<close> and a user message, the transcript holds the two messages with no tool
  result between them, and \<open>call_1\<close> is still pending.  With the default options and a
  before-write hook that blocks tool results, the flush empties the pending map but the
  placeholder is not persisted.
\<close>

theorem guard_pairing_counterexample:
  "foldl (guardedAppend example_deps no_synth_opts) guard_init [asst1, user1]
     = \<lparr>pending = [(''call_1'', Some ''edit'')], transcript = [asst1, user1]\<rparr>
   \<and> foldl (guardedAppend example_deps block_results_opts) guard_init [asst1, user1]
     = \<lparr>pending = [], transcript = [asst1, user1]\<rparr>
   \<and> callIds asst1 = [''call_1''] \<and> role user1 = User"
  by (simp add: guard_eval example_deps_def no_synth_opts_def block_results_opts_def asst1_def
      user1_def callIds_def)

subsection \<open>InboundGate\<close>

lemma pushRecent_contains: "1 \<le> limit \<Longrightarrow> newId \<in> set (pushRecent limit recent newId)"
proof -
  assume "1 \<le> limit"
  then have "length (recent @ [newId]) - limit \<le> length recent" by simp
  then have "drop (length (recent @ [newId]) - limit) (recent @ [newId])
      = drop (length (recent @ [newId]) - limit) recent @ [newId]"
    by simp
  then show ?thesis by (simp add: pushRecent_def)
qed

lemma recentIdsLimit_pos: "1 \<le> recentIdsLimit (resolveStaleDropConfig rawCfg)"
  by (auto simp: resolveStaleDropConfig_def FEISHU_RECENT_IDS_LIMIT_def max_def split: option.splits)

lemma staleText_contains:
  "sublist [36807, 26399, 28040, 24687] (staleText fmt sentAt lst)"
  "sublist (ascii ''reason=out_of_order_delivery'') (staleText fmt sentAt lst)"
proof -
  have "prefix [36807, 26399, 28040, 24687] (staleText fmt sentAt lst)"
    by (simp add: staleText_def STALE_NOTICE_HEAD_def)
  then show "sublist [36807, 26399, 28040, 24687] (staleText fmt sentAt lst)"
    by (rule prefix_imp_sublist)
  have "suffix (ascii ''reason=out_of_order_delivery'') (staleText fmt sentAt lst)"
    unfolding staleText_def by (intro suffixI[OF refl, THEN suffix_appendI] suffix_order.refl suffix_appendI)
  then show "sublist (ascii ''reason=out_of_order_delivery'') (staleText fmt sentAt lst)"
    by (rule suffix_imp_sublist)
qed

text \<open>
  C4, as the code has it.  Take an event that passes the in-memory check, with stale-drop
  enabled, whose id is not among the persisted recent ids, whose create time is a finite
  number below the persisted watermark minus the skew window, both times being valid
  dates, and let the state directory resolve, the state file be written and (when
  \<open>staleDrop.reply\<close> is on) the notice be accepted by the provider.  Then the handler
  returns without dispatching to the agent; with \<open>staleDrop.reply\<close> on it makes exactly one
  send, in reply to the message id of the event, whose text contains the four characters
  of the stale notice and \<open>reason=out_of_order_delivery\<close>, and with it off it makes none;
  the id of the event is among the recent ids written, and the watermark is unchanged.
\<close>

theorem stale_drop_no_dispatch:
  assumes acc: "fst (tryRecordMessage now (message_id event) dedup)"
    and en: "rawEnabled rawCfg \<noteq> Some False"
    and nodup: "message_id event \<notin> set (recentOf persisted)"
    and sent: "createTimeMsOf (create_time event) = Some sentAt"
    and lst: "lastProcessedSentAtMs persisted = Some lst"
    and stale: "sentAt < lst - skewWindowMs (resolveStaleDropConfig rawCfg)"
    and dates: "validDate sentAt \<and> validDate lst"
    and io: "stateDirOk io \<and> writeOk io \<and> (rawReply rawCfg = Some False \<or> sendOk io)"
    and r: "r = handleFeishuMessage_head fmt rawCfg accountId rest now io event dedup persisted"
  shows "admitted r = DroppedStale \<and> dispatches r = 0
     \<and> (if rawReply rawCfg = Some False then handlerSends r = []
         else \<exists>n. handlerSends r = [n] \<and> replyToMessageId n = Some (message_id event)
                \<and> sublist [36807, 26399, 28040, 24687] (sendText n)
                \<and> sublist (ascii ''reason=out_of_order_delivery'') (sendText n))
     \<and> message_id event \<in> set (recentOf (stateAfter r))
     \<and> lastProcessedSentAtMs (stateAfter r) = Some lst"
proof -
  obtain d' where d': "tryRecordMessage now (message_id event) dedup = (True, d')"
    using acc by (cases "tryRecordMessage now (message_id event) dedup") auto
  let ?cfg = "resolveStaleDropConfig rawCfg"
  let ?ctx = "parseFeishuMessageEvent event"
  let ?g = "persistentGate fmt ?cfg now accountId ?ctx persisted io"
  have en': "enabled ?cfg" using en by (simp add: resolveStaleDropConfig_def)
  have rep: "reply ?cfg = (rawReply rawCfg \<noteq> Some False)"
    by (simp add: resolveStaleDropConfig_def)
  have ctx: "messageId ?ctx = message_id event" "createTimeMs ?ctx = Some sentAt"
    using sent by (simp_all add: parseFeishuMessageEvent_def)
  have g: "outcome ?g = DropStale"
    "sends ?g = (if reply ?cfg then
        [\<lparr>sendTo = (if isGroup ?ctx then chatId ?ctx else senderOpenId ?ctx),
          replyToMessageId = Some (message_id event),
          sendText = staleText fmt sentAt lst, sendAccountId = accountId\<rparr>] else [])"
    "written ?g = Some (persisted\<lparr>recentMessageIds :=
        Some (pushRecent (recentIdsLimit ?cfg) (recentOf persisted) (message_id event)),
        updatedAtMs := Some now\<rparr>)"
    using nodup lst stale dates io ctx rep
    by (auto simp: persistentGate_def recentOf_def Let_def)
  have r': "r = \<lparr>admitted = DroppedStale, dispatches = 0, handlerSends = sends ?g,
      dedupAfter = d', stateAfter = (case written ?g of Some s \<Rightarrow> s | None \<Rightarrow> persisted)\<rparr>"
    unfolding r handleFeishuMessage_head_def using d' en' g(1) by (simp add: Let_def)
  have ring: "message_id event \<in> set (recentOf (stateAfter r))"
    unfolding r' using g(3) pushRecent_contains[OF recentIdsLimit_pos]
    by (simp add: recentOf_def)
  have wm: "lastProcessedSentAtMs (stateAfter r) = Some lst"
    unfolding r' using g(3) lst by simp
  have snd: "if rawReply rawCfg = Some False then handlerSends r = []
         else \<exists>n. handlerSends r = [n] \<and> replyToMessageId n = Some (message_id event)
                \<and> sublist [36807, 26399, 28040, 24687] (sendText n)
                \<and> sublist (ascii ''reason=out_of_order_delivery'') (sendText n)"
    unfolding r' using g(2) rep staleText_contains[of fmt sentAt lst] by simp
  show ?thesis using r' ring wm snd by simp
qed

lemma createTime_1000: "createTimeMsOf (Some ''1000'') = Some 1000"
  by (simp add: createTimeMsOf_def truthy_def parseInt10_def isSpace_def isDigit_def Let_def)

lemma tryRecord_fresh: "tryRecordMessage 0 i (dedup_init 0) = (True, \<lparr>processedMessageIds = [(i, 0)], lastCleanupTime = 0\<rparr>)"
  by (simp add: tryRecordMessage_def dedup_init_def Let_def DEDUP_CLEANUP_INTERVAL_MS_def DEDUP_MAX_SIZE_def)

theorem stale_drop_no_dispatch_witness:
  "fst (tryRecordMessage 0 (message_id om_old) (dedup_init 0))
   \<and> rawEnabled cfg_scenario \<noteq> Some False
   \<and> message_id om_old \<notin> set (recentOf (seeded []))
   \<and> createTimeMsOf (create_time om_old) = Some 1000
   \<and> lastProcessedSentAtMs (seeded []) = Some 2000
   \<and> 1000 < 2000 - skewWindowMs (resolveStaleDropConfig cfg_scenario)
   \<and> validDate 1000 \<and> validDate 2000 \<and> stateDirOk io_ok \<and> writeOk io_ok \<and> sendOk io_ok
   \<and> admitted (handleFeishuMessage_head example_fmt cfg_scenario ''default'' (\<lambda>c. 1) 0 io_ok
        om_old (dedup_init 0) (seeded [])) = DroppedStale
   \<and> dispatches (handleFeishuMessage_head example_fmt cfg_scenario ''default'' (\<lambda>c. 1) 0 io_ok
        om_old (dedup_init 0) (seeded [])) = 0
   \<and> map replyToMessageId (handlerSends (handleFeishuMessage_head example_fmt cfg_scenario
        ''default'' (\<lambda>c. 1) 0 io_ok om_old (dedup_init 0) (seeded []))) = [Some ''om_old'']
   \<and> recentOf (stateAfter (handleFeishuMessage_head example_fmt cfg_scenario ''default''
        (\<lambda>c. 1) 0 io_ok om_old (dedup_init 0) (seeded []))) = [''om_old'']"
proof -
  have h: "fst (tryRecordMessage 0 (message_id om_old) (dedup_init 0))"
    "rawEnabled cfg_scenario \<noteq> Some False"
    "message_id om_old \<notin> set (recentOf (seeded []))"
    "createTimeMsOf (create_time om_old) = Some 1000"
    "lastProcessedSentAtMs (seeded []) = Some 2000"
    "1000 < 2000 - skewWindowMs (resolveStaleDropConfig cfg_scenario)"
    "validDate 1000 \<and> validDate 2000"
    "stateDirOk io_ok \<and> writeOk io_ok \<and> (rawReply cfg_scenario = Some False \<or> sendOk io_ok)"
    by (simp_all add: tryRecord_fresh om_old_def cfg_scenario_def seeded_def recentOf_def
        createTime_1000 resolveStaleDropConfig_def validDate_def io_ok_def)
  let ?r = "handleFeishuMessage_head example_fmt cfg_scenario ''default'' (\<lambda>c. 1) 0 io_ok
        om_old (dedup_init 0) (seeded [])"
  from stale_drop_no_dispatch[OF h refl, of example_fmt "''default''" "\<lambda>c. 1"]
  have c: "admitted ?r = DroppedStale" "dispatches ?r = 0"
    "\<exists>n. handlerSends ?r = [n] \<and> replyToMessageId n = Some (message_id om_old)"
    by (auto simp: cfg_scenario_def)
  have s: "map replyToMessageId (handlerSends ?r) = [Some ''om_old'']"
    using c(3) by (auto simp: om_old_def)
  have w: "recentOf (stateAfter ?r) = [''om_old'']"
    by (simp add: handleFeishuMessage_head_def tryRecord_fresh om_old_def cfg_scenario_def
        resolveStaleDropConfig_def persistentGate_def parseFeishuMessageEvent_def createTime_1000
        seeded_def io_ok_def validDate_def Let_def pushRecent_def recentOf_def)
  show ?thesis using h c(1,2) s w by (simp add: io_ok_def)
qed

text \<open>
  The claim, stated for every such event, fails on the code.  A stale event whose id is
  already among the recent ids is skipped as a duplicate before the stale check, so no
  send is made although \<open>staleDrop.reply\<close> is on.  And when the provider rejects the
  notice, the error is caught, the handler goes on with the message (here the rest of the
  handler dispatches once), and the id is not recorded.
\<close>

theorem stale_drop_counterexample:
  "handleFeishuMessage_head example_fmt cfg_scenario ''default'' (\<lambda>c. 1) 0 io_ok
        om_old (dedup_init 0) (seeded [''om_old''])
     = \<lparr>admitted = SkippedPersistentDuplicate, dispatches = 0, handlerSends = [],
        dedupAfter = \<lparr>processedMessageIds = [(''om_old'', 0)], lastCleanupTime = 0\<rparr>,
        stateAfter = seeded [''om_old'']\<rparr>
   \<and> admitted (handleFeishuMessage_head example_fmt cfg_scenario ''default'' (\<lambda>c. 1) 0
        (io_ok\<lparr>sendOk := False\<rparr>) om_old (dedup_init 0) (seeded [])) = Continued
   \<and> dispatches (handleFeishuMessage_head example_fmt cfg_scenario ''default'' (\<lambda>c. 1) 0
        (io_ok\<lparr>sendOk := False\<rparr>) om_old (dedup_init 0) (seeded [])) = 1
   \<and> recentOf (stateAfter (handleFeishuMessage_head example_fmt cfg_scenario ''default''
        (\<lambda>c. 1) 0 (io_ok\<lparr>sendOk := False\<rparr>) om_old (dedup_init 0) (seeded []))) = []"
  by (simp add: handleFeishuMessage_head_def tryRecord_fresh om_old_def cfg_scenario_def
        resolveStaleDropConfig_def persistentGate_def parseFeishuMessageEvent_def createTime_1000
        seeded_def io_ok_def validDate_def Let_def pushRecent_def recentOf_def)

lemma gate_unparsed:
  assumes "createTimeMs (ctx::feishu_ctx) = None"
  shows "outcome (persistentGate fmt cfg now acct ctx state io) \<noteq> DropStale"
    and "written (persistentGate fmt cfg now acct ctx state io) = Some s
           \<Longrightarrow> lastProcessedSentAtMs s = lastProcessedSentAtMs state
               \<and> recentMessageIds s = Some (pushRecent (recentIdsLimit cfg) (recentOf state) (messageId ctx))"
    and "stateDirOk io \<Longrightarrow> writeOk io \<Longrightarrow> messageId ctx \<notin> set (recentOf state)
           \<Longrightarrow> written (persistentGate fmt cfg now acct ctx state io) \<noteq> None"
  using assms by (auto simp: persistentGate_def Let_def recentOf_def split: if_splits option.splits)

lemma gate_duplicate:
  "stateDirOk (io::gate_io) \<Longrightarrow> messageId (ctx::feishu_ctx) \<in> set (recentOf (state::inbound_state)) \<Longrightarrow>
   persistentGate fmt cfg now acct ctx state io
     = \<lparr>outcome = SkipDuplicate, sends = [], written = None, caught = False\<rparr>"
  by (simp add: persistentGate_def recentOf_def)

lemma head_duplicate:
  assumes en: "rawEnabled (rawCfg::stale_drop_raw) \<noteq> Some False" and sd: "stateDirOk (io::gate_io)"
    and dup: "message_id (event::feishu_event) \<in> set (recentOf (state::inbound_state))"
  shows "dispatches (handleFeishuMessage_head fmt rawCfg acct rest now io event dedup state) = 0
     \<and> handlerSends (handleFeishuMessage_head fmt rawCfg acct rest now io event dedup state) = []
     \<and> admitted (handleFeishuMessage_head fmt rawCfg acct rest now io event dedup state)
         \<in> {SkippedInMemoryDuplicate, SkippedPersistentDuplicate}"
proof (cases "tryRecordMessage now (message_id event) dedup")
  case (Pair ok d')
  have en': "enabled (resolveStaleDropConfig rawCfg)" using en by (simp add: resolveStaleDropConfig_def)
  have m: "messageId (parseFeishuMessageEvent event) = message_id event"
    by (simp add: parseFeishuMessageEvent_def)
  show ?thesis
  proof (cases ok)
    case True
    then show ?thesis using Pair en' gate_duplicate[OF sd, of "parseFeishuMessageEvent event" state] dup m
      by (simp add: handleFeishuMessage_head_def Let_def)
  next
    case False
    then show ?thesis using Pair by (simp add: handleFeishuMessage_head_def)
  qed
qed

text \<open>
  C10, as the code has it.  An event whose \<open>create_time\<close> is missing or does not parse to
  a finite number is never dropped as stale, and the watermark after the handler is the
  one before it.  When the event passes both duplicate checks, stale-drop is enabled,
  and the state directory resolves and the state file is written, the id of the event is
  among the recent ids written, and a later delivery of the same id against that state
  is dropped as a duplicate: it makes no dispatch.
\<close>

theorem unparsed_create_time:
  assumes nt: "createTimeMsOf (create_time event) = None"
    and r: "r = handleFeishuMessage_head fmt rawCfg acct rest now io event dedup persisted"
  shows "admitted r \<noteq> DroppedStale
     \<and> lastProcessedSentAtMs (stateAfter r) = lastProcessedSentAtMs persisted
     \<and> (fst (tryRecordMessage now (message_id event) dedup) \<and> rawEnabled rawCfg \<noteq> Some False
          \<and> stateDirOk io \<and> writeOk io \<and> message_id event \<notin> set (recentOf persisted)
        \<longrightarrow> message_id event \<in> set (recentOf (stateAfter r))
          \<and> (\<forall>fmt2 rest2 now2 io2 event2 dedup2.
                message_id event2 = message_id event \<and> stateDirOk io2
                \<longrightarrow> dispatches (handleFeishuMessage_head fmt2 rawCfg acct rest2 now2 io2 event2
                       dedup2 (stateAfter r)) = 0))"
proof -
  let ?cfg = "resolveStaleDropConfig rawCfg"
  let ?ctx = "parseFeishuMessageEvent event"
  let ?g = "persistentGate fmt ?cfg now acct ?ctx persisted io"
  have ctx: "createTimeMs ?ctx = None" "messageId ?ctx = message_id event"
    using nt by (simp_all add: parseFeishuMessageEvent_def)
  note gu = gate_unparsed[OF ctx(1), where fmt=fmt and cfg="?cfg" and now=now and acct=acct
      and state=persisted and io=io]
  obtain ok d' where p: "tryRecordMessage now (message_id event) dedup = (ok, d')"
    by (cases "tryRecordMessage now (message_id event) dedup")
  have wm: "lastProcessedSentAtMs (case written ?g of Some s \<Rightarrow> s | None \<Rightarrow> persisted)
      = lastProcessedSentAtMs persisted"
    using gu(2) by (cases "written ?g") auto
  have a: "admitted r \<noteq> DroppedStale"
    unfolding r handleFeishuMessage_head_def using p gu(1)
    by (cases ok; cases "enabled ?cfg"; cases "outcome ?g") (auto simp: Let_def)
  have b: "lastProcessedSentAtMs (stateAfter r) = lastProcessedSentAtMs persisted"
    unfolding r handleFeishuMessage_head_def using p wm
    by (cases ok; cases "enabled ?cfg"; cases "outcome ?g") (auto simp: Let_def)
  have c: "message_id event \<in> set (recentOf (stateAfter r))
          \<and> (\<forall>fmt2 rest2 now2 io2 event2 dedup2.
                message_id event2 = message_id event \<and> stateDirOk io2
                \<longrightarrow> dispatches (handleFeishuMessage_head fmt2 rawCfg acct rest2 now2 io2 event2
                       dedup2 (stateAfter r)) = 0)"
    if h: "fst (tryRecordMessage now (message_id event) dedup) \<and> rawEnabled rawCfg \<noteq> Some False
          \<and> stateDirOk io \<and> writeOk io \<and> message_id event \<notin> set (recentOf persisted)"
  proof -
    from h p have ok: "ok" by simp
    have en': "enabled ?cfg" using h by (simp add: resolveStaleDropConfig_def)
    from gu(3) h ctx(2) obtain s where s: "written ?g = Some s" by auto
    have st: "stateAfter r = s"
      unfolding r handleFeishuMessage_head_def using p ok en' s
      by (cases "outcome ?g") (auto simp: Let_def)
    have ring: "message_id event \<in> set (recentOf (stateAfter r))"
      using gu(2)[OF s] ctx(2) pushRecent_contains[OF recentIdsLimit_pos]
      by (simp add: st recentOf_def)
    show ?thesis
    proof (intro conjI allI impI)
      show "message_id event \<in> set (recentOf (stateAfter r))" by (rule ring)
    next
      fix fmt2 :: js_format and rest2 :: "feishu_ctx \<Rightarrow> nat" and now2 :: int
        and io2 :: gate_io and event2 :: feishu_event and dedup2 :: dedup_state
      assume e2: "message_id event2 = message_id event \<and> stateDirOk io2"
      then have "message_id event2 \<in> set (recentOf (stateAfter r))" using ring by simp
      with head_duplicate[of rawCfg io2 event2 "stateAfter r"] h e2
      show "dispatches (handleFeishuMessage_head fmt2 rawCfg acct rest2 now2 io2 event2
                       dedup2 (stateAfter r)) = 0" by blast
    qed
  qed
  show ?thesis using a b c by blast
qed

lemma createTime_missing: "createTimeMsOf None = None" "createTimeMsOf (Some ''soon'') = None"
  by (simp_all add: createTimeMsOf_def truthy_def parseInt10_def isSpace_def isDigit_def Let_def)

theorem unparsed_create_time_witness:
  "createTimeMsOf (create_time om_notime) = None
   \<and> fst (tryRecordMessage 0 (message_id om_notime) (dedup_init 0))
   \<and> rawEnabled cfg_default \<noteq> Some False \<and> stateDirOk io_ok \<and> writeOk io_ok
   \<and> message_id om_notime \<notin> set (recentOf (seeded []))
   \<and> admitted (handleFeishuMessage_head example_fmt cfg_default ''default'' (\<lambda>c. 1) 0 io_ok
        om_notime (dedup_init 0) (seeded [])) = Continued
   \<and> stateAfter (handleFeishuMessage_head example_fmt cfg_default ''default'' (\<lambda>c. 1) 0 io_ok
        om_notime (dedup_init 0) (seeded []))
       = \<lparr>lastProcessedSentAtMs = Some 2000, recentMessageIds = Some [''om_x''],
          updatedAtMs = Some 0\<rparr>
   \<and> dispatches (handleFeishuMessage_head example_fmt cfg_default ''default'' (\<lambda>c. 1) 99 io_ok
        om_notime (dedup_init 99)
        (stateAfter (handleFeishuMessage_head example_fmt cfg_default ''default'' (\<lambda>c. 1) 0
           io_ok om_notime (dedup_init 0) (seeded [])))) = 0"
proof -
  let ?r = "handleFeishuMessage_head example_fmt cfg_default ''default'' (\<lambda>c. 1) 0 io_ok
        om_notime (dedup_init 0) (seeded [])"
  have h: "createTimeMsOf (create_time om_notime) = None"
    "fst (tryRecordMessage 0 (message_id om_notime) (dedup_init 0))"
    "rawEnabled cfg_default \<noteq> Some False" "stateDirOk io_ok" "writeOk io_ok"
    "message_id om_notime \<notin> set (recentOf (seeded []))"
    by (simp_all add: om_notime_def createTime_missing tryRecord_fresh cfg_default_def io_ok_def
        seeded_def recentOf_def)
  from unparsed_create_time[OF h(1) refl, of example_fmt cfg_default "''default''" "\<lambda>c. 1" 0
      io_ok "dedup_init 0" "seeded []"] h
  have "\<forall>fmt2 rest2 now2 io2 event2 dedup2.
                message_id event2 = message_id om_notime \<and> stateDirOk io2
                \<longrightarrow> dispatches (handleFeishuMessage_head fmt2 cfg_default ''default'' rest2 now2
                       io2 event2 dedup2 (stateAfter ?r)) = 0"
    by blast
  then have d: "dispatches (handleFeishuMessage_head example_fmt cfg_default ''default''
      (\<lambda>c. 1) 99 io_ok om_notime (dedup_init 99) (stateAfter ?r)) = 0"
    using h(4) by blast
  have e: "admitted ?r = Continued"
    "stateAfter ?r = \<lparr>lastProcessedSentAtMs = Some 2000, recentMessageIds = Some [''om_x''],
          updatedAtMs = Some 0\<rparr>"
    by (simp_all add: handleFeishuMessage_head_def tryRecord_fresh om_notime_def cfg_default_def
        resolveStaleDropConfig_def persistentGate_def parseFeishuMessageEvent_def
        createTime_missing seeded_def io_ok_def Let_def pushRecent_def
        FEISHU_RECENT_IDS_LIMIT_def)
  show ?thesis using h d e by simp
qed

text \<open>
  The claim, stated for every configuration, fails on the code.  With
  \<open>staleDrop.enabled = false\<close> the persistent check is skipped: the id is not pushed into
  the recent ids, and a delivery of the same id after a restart is dispatched again.  With
  the default configuration and a failing write of the state file the id is not recorded
  either.
\<close>

theorem unparsed_create_time_counterexample:
  "handleFeishuMessage_head example_fmt cfg_disabled ''default'' (\<lambda>c. 1) 0 io_ok
        om_notime (dedup_init 0) (seeded [])
     = \<lparr>admitted = Continued, dispatches = 1, handlerSends = [],
        dedupAfter = \<lparr>processedMessageIds = [(''om_x'', 0)], lastCleanupTime = 0\<rparr>,
        stateAfter = seeded []\<rparr>
   \<and> recentOf (stateAfter (handleFeishuMessage_head example_fmt cfg_default ''default''
        (\<lambda>c. 1) 0 (io_ok\<lparr>writeOk := False\<rparr>) om_notime (dedup_init 0) (seeded []))) = []
   \<and> dispatches (handleFeishuMessage_head example_fmt cfg_disabled ''default'' (\<lambda>c. 1) 99 io_ok
        om_notime (dedup_init 99) (seeded [])) = 1"
  by (simp add: handleFeishuMessage_head_def tryRecordMessage_def dedup_init_def
      DEDUP_CLEANUP_INTERVAL_MS_def DEDUP_MAX_SIZE_def om_notime_def cfg_default_def
      cfg_disabled_def resolveStaleDropConfig_def persistentGate_def parseFeishuMessageEvent_def
      createTime_missing seeded_def io_ok_def Let_def pushRecent_def recentOf_def)

lemma count_firsts:
  "length (filter (\<lambda>b. b) (firsts seen xs)) = card (set xs - set seen)"
proof (induction xs arbitrary: seen)
  case Nil
  show ?case by simp
next
  case (Cons x xs)
  show ?case
  proof (cases "x \<in> set seen")
    case True
    have 1: "set (x # xs) - set seen = set xs - set seen" using True by auto
    have 2: "set xs - set (x # seen) = set xs - set seen" using True by auto
    have "length (filter (\<lambda>b. b) (firsts seen (x # xs)))
        = length (filter (\<lambda>b. b) (firsts (x # seen) xs))"
      using True by simp
    also have "\<dots> = card (set xs - set (x # seen))" by (rule Cons.IH)
    also have "\<dots> = card (set (x # xs) - set seen)" by (simp only: 1 2)
    finally show ?thesis .
  next
    case False
    have 1: "set (x # xs) - set seen = insert x (set xs - set (x # seen))" using False by auto
    have 2: "x \<notin> set xs - set (x # seen)" by simp
    have 3: "finite (set xs - set (x # seen))" by simp
    have "length (filter (\<lambda>b. b) (firsts seen (x # xs)))
        = Suc (length (filter (\<lambda>b. b) (firsts (x # seen) xs)))"
      using False by simp
    also have "\<dots> = Suc (card (set xs - set (x # seen)))" by (simp only: Cons.IH)
    also have "\<dots> = card (insert x (set xs - set (x # seen)))"
      using card_insert_disjoint[OF 3 2] by simp
    also have "\<dots> = card (set (x # xs) - set seen)" by (simp only: 1)
    finally show ?thesis .
  qed
qed

lemma tryRecord_step:
  assumes inv: "dedup_inv lo seen st"
    and win: "lo \<le> now" "now \<le> lo + DEDUP_TTL_MS"
    and cap: "card (set (x # seen)) \<le> DEDUP_MAX_SIZE"
  shows "fst (tryRecordMessage now x st) = (x \<notin> set seen)"
    and "dedup_inv lo (x # seen) (snd (tryRecordMessage now x st))"
proof -
  let ?m = "processedMessageIds st"
  have keep: "filter (\<lambda>e. \<not> (now - snd e > DEDUP_TTL_MS)) ?m = ?m"
    using inv win by (auto simp: dedup_inv_def list_all_iff filter_id_conv)
  let ?st1 = "if now - lastCleanupTime st > DEDUP_CLEANUP_INTERVAL_MS
              then \<lparr>processedMessageIds = ?m, lastCleanupTime = now\<rparr> else st"
  have m1: "processedMessageIds ?st1 = ?m" by simp
  have keys: "fst ` set ?m = set seen" and dist: "distinct (map fst ?m)"
    and times: "list_all (\<lambda>e. lo \<le> snd e) ?m"
    using inv by (simp_all add: dedup_inv_def)
  show "fst (tryRecordMessage now x st) = (x \<notin> set seen)"
    unfolding tryRecordMessage_def keep Let_def using keys by (simp add: m1)
  show "dedup_inv lo (x # seen) (snd (tryRecordMessage now x st))"
  proof (cases "x \<in> set seen")
    case True
    then have "snd (tryRecordMessage now x st) = ?st1"
      unfolding tryRecordMessage_def keep Let_def using keys by (simp add: m1)
    then show ?thesis using keys dist times True by (auto simp: dedup_inv_def)
  next
    case False
    have "length ?m = card (set seen)"
      using keys dist by (metis distinct_card length_map set_map)
    moreover have "card (set (x # seen)) = Suc (card (set seen))" using False by simp
    ultimately have small: "\<not> length ?m \<ge> DEDUP_MAX_SIZE" using cap by simp
    have "snd (tryRecordMessage now x st) = ?st1\<lparr>processedMessageIds := ?m @ [(x, now)]\<rparr>"
      unfolding tryRecordMessage_def keep Let_def using keys False small by (simp add: m1)
    then show ?thesis using keys dist times False win(1) by (auto simp: dedup_inv_def)
  qed
qed

lemma tryRecordAll_firsts:
  assumes "dedup_inv lo seen st"
    and "list_all (\<lambda>d. lo \<le> fst d \<and> fst d \<le> lo + DEDUP_TTL_MS) ds"
    and "card (set (map snd ds) \<union> set seen) \<le> DEDUP_MAX_SIZE"
  shows "tryRecordAll ds st = firsts seen (map snd ds)"
  using assms
proof (induction ds arbitrary: seen st)
  case Nil
  show ?case by simp
next
  case (Cons d ds)
  obtain now x where d: "d = (now, x)" by (cases d)
  have fin: "finite (set (map snd (d # ds)) \<union> set seen)" by simp
  have "set (x # seen) \<subseteq> set (map snd (d # ds)) \<union> set seen" using d by auto
  from card_mono[OF fin this] Cons.prems(3)
  have cap: "card (set (x # seen)) \<le> DEDUP_MAX_SIZE" by simp
  have win: "lo \<le> now" "now \<le> lo + DEDUP_TTL_MS" using Cons.prems(2) d by simp_all
  note step = tryRecord_step[OF Cons.prems(1) win cap]
  have eq: "set (map snd ds) \<union> set (x # seen) = set (map snd (d # ds)) \<union> set seen"
    using d by auto
  have "tryRecordAll ds (snd (tryRecordMessage now x st)) = firsts (x # seen) (map snd ds)"
    using Cons.IH[OF step(2)] Cons.prems(2,3) eq by simp
  then show ?case using step(1) d by (simp add: case_prod_unfold)
qed

lemma tryRecord_present:
  assumes "(x, ts) \<in> set (processedMessageIds st)"
    and "now - lastCleanupTime st \<le> DEDUP_CLEANUP_INTERVAL_MS \<or> now - ts \<le> DEDUP_TTL_MS"
  shows "\<not> fst (tryRecordMessage now x st)"
proof -
  let ?st1 = "if now - lastCleanupTime st > DEDUP_CLEANUP_INTERVAL_MS
                 then \<lparr>processedMessageIds =
                         filter (\<lambda>e. \<not> (now - snd e > DEDUP_TTL_MS)) (processedMessageIds st),
                       lastCleanupTime = now\<rparr>
                 else st"
  have "(x, ts) \<in> set (processedMessageIds ?st1)" using assms by auto
  then have "x \<in> fst ` set (processedMessageIds ?st1)" by force
  then show ?thesis unfolding tryRecordMessage_def Let_def by simp
qed

lemma tryRecord_inserts:
  "fst (tryRecordMessage now x st)
     \<Longrightarrow> (x, now) \<in> set (processedMessageIds (snd (tryRecordMessage now x st)))"
proof -
  assume a: "fst (tryRecordMessage now x st)"
  let ?st1 = "if now - lastCleanupTime st > DEDUP_CLEANUP_INTERVAL_MS
                 then \<lparr>processedMessageIds =
                         filter (\<lambda>e. \<not> (now - snd e > DEDUP_TTL_MS)) (processedMessageIds st),
                       lastCleanupTime = now\<rparr>
                 else st"
  have nin: "x \<notin> fst ` set (processedMessageIds ?st1)"
    using a unfolding tryRecordMessage_def Let_def by (simp split: if_splits)
  let ?kept = "if length (processedMessageIds ?st1) \<ge> DEDUP_MAX_SIZE
               then drop 1 (processedMessageIds ?st1) else processedMessageIds ?st1"
  have "snd (tryRecordMessage now x st) = ?st1\<lparr>processedMessageIds := ?kept @ [(x, now)]\<rparr>"
    unfolding tryRecordMessage_def Let_def using nin by simp
  then show ?thesis by simp
qed

text \<open>
  C6, as the code has it.  A delivery whose id is in the in-memory map is dropped before
  dispatch, unless the sweep of this very call removes the entry (the sweep runs when
  more than five minutes have passed since the last one, and removes entries older than
  thirty minutes); an accepted id is in the map afterwards.  With stale-drop enabled, a
  delivery whose id is among the persisted recent ids is dropped before dispatch.  For a
  run of deliveries that starts from an empty map, spans at most thirty minutes and
  carries at most 1000 distinct ids, the in-memory check accepts exactly the first
  delivery of each id, so the deliveries that can reach the dispatch are as many as the
  distinct ids.
\<close>

theorem dedup_layers:
  "((x, ts) \<in> set (processedMessageIds dedup)
      \<and> (now - lastCleanupTime dedup \<le> DEDUP_CLEANUP_INTERVAL_MS \<or> now - ts \<le> DEDUP_TTL_MS)
      \<and> message_id event = x
    \<longrightarrow> admitted (handleFeishuMessage_head fmt rawCfg acct rest now io event dedup persisted)
          = SkippedInMemoryDuplicate
      \<and> dispatches (handleFeishuMessage_head fmt rawCfg acct rest now io event dedup persisted)
          = 0)
   \<and> (fst (tryRecordMessage now x dedup)
        \<longrightarrow> (x, now) \<in> set (processedMessageIds (snd (tryRecordMessage now x dedup))))
   \<and> (rawEnabled rawCfg \<noteq> Some False \<and> stateDirOk io
        \<and> message_id event \<in> set (recentOf persisted)
      \<longrightarrow> dispatches (handleFeishuMessage_head fmt rawCfg acct rest now io event dedup persisted)
            = 0
        \<and> admitted (handleFeishuMessage_head fmt rawCfg acct rest now io event dedup persisted)
            \<in> {SkippedInMemoryDuplicate, SkippedPersistentDuplicate})
   \<and> (processedMessageIds st0 = []
        \<and> list_all (\<lambda>d. lo \<le> fst d \<and> fst d \<le> lo + DEDUP_TTL_MS) ds
        \<and> card (set (map snd ds)) \<le> DEDUP_MAX_SIZE
      \<longrightarrow> tryRecordAll ds st0 = firsts [] (map snd ds)
        \<and> length (filter (\<lambda>ok. ok) (tryRecordAll ds st0)) = card (set (map snd ds)))"
proof (intro conjI impI)
  assume a: "(x, ts) \<in> set (processedMessageIds dedup)
      \<and> (now - lastCleanupTime dedup \<le> DEDUP_CLEANUP_INTERVAL_MS \<or> now - ts \<le> DEDUP_TTL_MS)
      \<and> message_id event = x"
  then have "\<not> fst (tryRecordMessage now (message_id event) dedup)"
    using tryRecord_present[of x ts dedup now] by blast
  then obtain d' where "tryRecordMessage now (message_id event) dedup = (False, d')"
    by (cases "tryRecordMessage now (message_id event) dedup") auto
  then show "admitted (handleFeishuMessage_head fmt rawCfg acct rest now io event dedup persisted)
          = SkippedInMemoryDuplicate"
    "dispatches (handleFeishuMessage_head fmt rawCfg acct rest now io event dedup persisted) = 0"
    by (simp_all add: handleFeishuMessage_head_def)
next
  assume "fst (tryRecordMessage now x dedup)"
  then show "(x, now) \<in> set (processedMessageIds (snd (tryRecordMessage now x dedup)))"
    by (rule tryRecord_inserts)
next
  assume b: "rawEnabled rawCfg \<noteq> Some False \<and> stateDirOk io
        \<and> message_id event \<in> set (recentOf persisted)"
  from head_duplicate[of rawCfg io event persisted fmt acct rest now dedup] b
  show "dispatches (handleFeishuMessage_head fmt rawCfg acct rest now io event dedup persisted) = 0"
    "admitted (handleFeishuMessage_head fmt rawCfg acct rest now io event dedup persisted)
            \<in> {SkippedInMemoryDuplicate, SkippedPersistentDuplicate}"
    by blast+
next
  assume c: "processedMessageIds st0 = []
        \<and> list_all (\<lambda>d. lo \<le> fst d \<and> fst d \<le> lo + DEDUP_TTL_MS) ds
        \<and> card (set (map snd ds)) \<le> DEDUP_MAX_SIZE"
  then have inv: "dedup_inv lo [] st0" by (simp add: dedup_inv_def)
  from tryRecordAll_firsts[OF inv, of ds] c
  show eq: "tryRecordAll ds st0 = firsts [] (map snd ds)" by simp
  show "length (filter (\<lambda>ok. ok) (tryRecordAll ds st0)) = card (set (map snd ds))"
    unfolding eq using count_firsts[of "[]" "map snd ds"] by simp
qed

theorem dedup_layers_witness:
  "(''om_x'', 0) \<in> set (processedMessageIds \<lparr>processedMessageIds = [(''om_x'', 0)],
                                              lastCleanupTime = 0\<rparr>)
   \<and> 5 - lastCleanupTime \<lparr>processedMessageIds = [(''om_x'', 0)], lastCleanupTime = 0\<rparr>
        \<le> DEDUP_CLEANUP_INTERVAL_MS
   \<and> message_id om_notime = ''om_x''
   \<and> admitted (handleFeishuMessage_head example_fmt cfg_default ''default'' (\<lambda>c. 1) 5 io_ok
        om_notime \<lparr>processedMessageIds = [(''om_x'', 0)], lastCleanupTime = 0\<rparr> (seeded []))
       = SkippedInMemoryDuplicate
   \<and> fst (tryRecordMessage 5 ''om_y'' \<lparr>processedMessageIds = [(''om_x'', 0)],
                                        lastCleanupTime = 0\<rparr>)
   \<and> rawEnabled cfg_default \<noteq> Some False \<and> stateDirOk io_ok
   \<and> message_id om_notime \<in> set (recentOf (seeded [''om_x'']))
   \<and> dispatches (handleFeishuMessage_head example_fmt cfg_default ''default'' (\<lambda>c. 1) 5 io_ok
        om_notime (dedup_init 0) (seeded [''om_x''])) = 0
   \<and> processedMessageIds (dedup_init 0) = []
   \<and> list_all (\<lambda>d. 0 \<le> fst d \<and> fst d \<le> 0 + DEDUP_TTL_MS) deliveries3
   \<and> card (set (map snd deliveries3)) \<le> DEDUP_MAX_SIZE
   \<and> tryRecordAll deliveries3 (dedup_init 0) = [True, False, True]"
proof -
  let ?d = "\<lparr>processedMessageIds = [(''om_x'', 0)], lastCleanupTime = 0\<rparr>"
  have h1: "(''om_x'', 0) \<in> set (processedMessageIds ?d)"
    "5 - lastCleanupTime ?d \<le> DEDUP_CLEANUP_INTERVAL_MS" "message_id om_notime = ''om_x''"
    by (simp_all add: DEDUP_CLEANUP_INTERVAL_MS_def om_notime_def)
  have h2: "fst (tryRecordMessage 5 ''om_y'' ?d)"
    by (simp add: tryRecordMessage_def Let_def DEDUP_CLEANUP_INTERVAL_MS_def DEDUP_MAX_SIZE_def)
  have h3: "rawEnabled cfg_default \<noteq> Some False" "stateDirOk io_ok"
    "message_id om_notime \<in> set (recentOf (seeded [''om_x'']))"
    by (simp_all add: cfg_default_def io_ok_def om_notime_def seeded_def recentOf_def)
  have h4: "processedMessageIds (dedup_init 0) = []"
    "list_all (\<lambda>d. 0 \<le> fst d \<and> fst d \<le> 0 + DEDUP_TTL_MS) deliveries3"
    "card (set (map snd deliveries3)) \<le> DEDUP_MAX_SIZE"
    by (simp_all add: dedup_init_def deliveries3_def DEDUP_TTL_MS_def DEDUP_MAX_SIZE_def
        card_insert_if)
  have c1: "admitted (handleFeishuMessage_head example_fmt cfg_default ''default'' (\<lambda>c. 1) 5
      io_ok om_notime ?d (seeded [])) = SkippedInMemoryDuplicate"
    using dedup_layers[of "''om_x''" 0 ?d 5 om_notime example_fmt cfg_default "''default''"
        "\<lambda>c. 1" io_ok "seeded []"] h1
    by blast
  have c3: "dispatches (handleFeishuMessage_head example_fmt cfg_default ''default'' (\<lambda>c. 1) 5
      io_ok om_notime (dedup_init 0) (seeded [''om_x''])) = 0"
    using dedup_layers[of "''om_x''" 0 "dedup_init 0" 5 om_notime example_fmt cfg_default
        "''default''" "\<lambda>c. 1" io_ok "seeded [''om_x'']"] h3
    by blast
  have "tryRecordAll deliveries3 (dedup_init 0) = firsts [] (map snd deliveries3)"
    using dedup_layers[of "''om_x''" 0 ?d 5 om_notime example_fmt cfg_default "''default''"
        "\<lambda>c. 1" io_ok "seeded []" "dedup_init 0" 0 deliveries3] h4
    by blast
  then have c4: "tryRecordAll deliveries3 (dedup_init 0) = [True, False, True]"
    by (simp add: deliveries3_def)
  show ?thesis using h1 h2 h3 h4 c1 c3 c4 by simp
qed

text \<open>
  The claim, stated for every pair of deliveries, fails on the code: both caches are
  bounded.  With stale-drop disabled, two deliveries of the same id 36 minutes apart are
  both dispatched, the sweep having removed the entry of the first.  With the default
  configuration the same happens when the write of the state file failed at the first
  delivery.
\<close>

theorem dedup_counterexample:
  "handleFeishuMessage_head example_fmt cfg_disabled ''default'' (\<lambda>c. 1) 0 io_ok
        om_notime (dedup_init 0) (seeded [])
     = \<lparr>admitted = Continued, dispatches = 1, handlerSends = [],
        dedupAfter = \<lparr>processedMessageIds = [(''om_x'', 0)], lastCleanupTime = 0\<rparr>,
        stateAfter = seeded []\<rparr>
   \<and> handleFeishuMessage_head example_fmt cfg_disabled ''default'' (\<lambda>c. 1) 2160000 io_ok
        om_notime \<lparr>processedMessageIds = [(''om_x'', 0)], lastCleanupTime = 0\<rparr> (seeded [])
     = \<lparr>admitted = Continued, dispatches = 1, handlerSends = [],
        dedupAfter = \<lparr>processedMessageIds = [(''om_x'', 2160000)], lastCleanupTime = 2160000\<rparr>,
        stateAfter = seeded []\<rparr>
   \<and> handleFeishuMessage_head example_fmt cfg_default ''default'' (\<lambda>c. 1) 0
        (io_ok\<lparr>writeOk := False\<rparr>) om_notime (dedup_init 0) (seeded [])
     = \<lparr>admitted = Continued, dispatches = 1, handlerSends = [],
        dedupAfter = \<lparr>processedMessageIds = [(''om_x'', 0)], lastCleanupTime = 0\<rparr>,
        stateAfter = seeded []\<rparr>
   \<and> admitted (handleFeishuMessage_head example_fmt cfg_default ''default'' (\<lambda>c. 1) 2160000
        io_ok om_notime \<lparr>processedMessageIds = [(''om_x'', 0)], lastCleanupTime = 0\<rparr>
        (seeded [])) = Continued"
  by (simp add: handleFeishuMessage_head_def tryRecordMessage_def dedup_init_def
      DEDUP_CLEANUP_INTERVAL_MS_def DEDUP_MAX_SIZE_def DEDUP_TTL_MS_def om_notime_def
      cfg_default_def cfg_disabled_def resolveStaleDropConfig_def persistentGate_def
      parseFeishuMessageEvent_def createTime_missing seeded_def io_ok_def Let_def
      pushRecent_def recentOf_def)

subsection \<open>TaskCoordinator\<close>







lemma find_upsertInto_other:
  "i \<noteq> task_id task \<Longrightarrow>
   find (\<lambda>t. task_id t = i) (upsertInto task ts) = find (\<lambda>t. task_id t = i) ts"
  by (induction ts) auto




lemma tasks_upsertTask [simp]: "tasks (upsertTask store task) = upsertInto task (tasks store)"
  by (simp add: upsertTask_def)





lemma setLastInterruptible_tasks [simp]:
  "tasks (setLastInterruptible store c i) = tasks store"
  by (simp add: setLastInterruptible_def)

lemma setLastInterruptible_ok [simp]:
  "store_ok (setLastInterruptible store c i) = store_ok store"
  by (simp add: store_ok_def)

lemma paramsFor_taskId [simp]: "p_taskId (paramsFor ctx i a s e) = i"
  by (simp add: paramsFor_def)

































subsection \<open>AnnounceQueue\<close>




lemma extends_refl [simp]: "extends r r"
  by (simp add: extends_def)


lemma extends_queue_update:
  "maxAgeMs (f (queue r)) = maxAgeMs (queue r) \<Longrightarrow> extends r (r\<lparr>queue := f (queue r)\<rparr>)"
  by (simp add: extends_def)

lemma extends_ticks [simp]: "extends r (r\<lparr>ticks := n\<rparr>)"
  by (simp add: extends_def)


lemma sendIfFresh_queue [simp]: "queue (snd (sendIfFresh w item r)) = queue r"
  by (simp add: sendIfFresh_def Let_def)

lemma maxAgeMs_dropStale [simp]: "maxAgeMs (dropStaleItemsInPlace q t) = maxAgeMs q"
  by (simp add: dropStaleItemsInPlace_def)


lemma sendAndShift_not_Break [simp]: "sendAndShift w force item after r \<noteq> Break r'"
  by (simp add: sendAndShift_def split: prod.splits bool.splits)






lemma stale_needs_age: "isStaleItem q item t \<Longrightarrow> maxAgeMs q > 0 \<and> highPriority item \<noteq> Some True
    \<and> t - enqueuedAt item > maxAgeMs q"
  by (auto simp: isStaleItem_def split: if_splits)


lemma fields_dropStale [simp]:
  "mode (dropStaleItemsInPlace q t) = mode q"
  "droppedCount (dropStaleItemsInPlace q t) = droppedCount q"
  "draining (dropStaleItemsInPlace q t) = draining q"
  "lastEnqueuedAt (dropStaleItemsInPlace q t) = lastEnqueuedAt q"
  "previewQueueSummaryPrompt h (dropStaleItemsInPlace q t) = previewQueueSummaryPrompt h q"
  "isStaleItem (dropStaleItemsInPlace q t) item t' = isStaleItem q item t'"
  by (simp_all add: dropStaleItemsInPlace_def previewQueueSummaryPrompt_def isStaleItem_def)

lemma fields_draining [simp]:
  "previewQueueSummaryPrompt h (q\<lparr>draining := b\<rparr>) = previewQueueSummaryPrompt h q"
  "isStaleItem (q\<lparr>draining := b\<rparr>) item t = isStaleItem q item t"
  "previewQueueSummaryPrompt h (q\<lparr>lastEnqueuedAt := t', draining := b\<rparr>)
     = previewQueueSummaryPrompt h q"
  "isStaleItem (q\<lparr>lastEnqueuedAt := t', draining := b\<rparr>) item t = isStaleItem q item t"
  "previewQueueSummaryPrompt h (q\<lparr>lastEnqueuedAt := t'\<rparr>) = previewQueueSummaryPrompt h q"
  "isStaleItem (q\<lparr>lastEnqueuedAt := t'\<rparr>) item t = isStaleItem q item t"
  by (simp_all add: previewQueueSummaryPrompt_def isStaleItem_def)















end
